theory Spec2Isabelle
  imports Main
begin

section \<open>The scope resolver of \<open>src/scope-resolver.js\<close>\<close>

text \<open>
  A shallow embedding of the \<open>ScopeResolver\<close> class: every method is a HOL function
  that takes the resolver and returns the updated resolver next to its result; a
  \<open>throw\<close> is the left injection of a sum. The collaborators the file does not define
  (the text buffer, the regular-expression engine, \<open>Number\<close>, the members of a syntax
  node that the file itself never reads) are fields of the records \<open>text_buffer\<close>
  and \<open>host\<close>, so every general statement below holds for any implementation of
  them.
\<close>

subsection \<open>Strings\<close>

text \<open>
  JavaScript strings are sequences of code units; they are modelled as \<open>string\<close>,
  one \<open>char\<close> per code unit.
\<close>

text \<open>\<open>String.prototype.indexOf\<close>: the position of the first occurrence.\<close>

fun indexOf :: "string \<Rightarrow> string \<Rightarrow> nat option" where
  "indexOf [] pat = (if pat = [] then Some 0 else None)"
| "indexOf (c # cs) pat =
     (if take (length pat) (c # cs) = pat then Some 0
      else map_option Suc (indexOf cs pat))"

definition includes_str :: "string \<Rightarrow> string \<Rightarrow> bool" where
  "includes_str s pat = (indexOf s pat \<noteq> None)"

text \<open>
  The replacement text of \<open>String.prototype.replace\<close> is a template (the operation
  GetSubstitution of the language standard): \<open>$$\<close> stands for a dollar sign, \<open>$&\<close> for
  the matched text, \<open>$`\<close> for the text before the match and \<open>$'\<close> for the text after
  it. The search value is a string here, so there are no capture groups and \<open>$1\<close>,
  \<open>$<\<close> and every other \<open>$\<close> stand for themselves.
\<close>

fun getSubstitution :: "string \<Rightarrow> string \<Rightarrow> string \<Rightarrow> string \<Rightarrow> string" where
  "getSubstitution matched preceding following [] = []"
| "getSubstitution matched preceding following [c] = [c]"
| "getSubstitution matched preceding following (c # d # rest) =
     (if c = CHR ''$'' then
        (if d = CHR ''$'' then CHR ''$'' # getSubstitution matched preceding following rest
         else if d = CHR ''&'' then matched @ getSubstitution matched preceding following rest
         else if d = CHR 0x60 then preceding @ getSubstitution matched preceding following rest
         else if d = CHR 0x27 then following @ getSubstitution matched preceding following rest
         else c # getSubstitution matched preceding following (d # rest))
      else c # getSubstitution matched preceding following (d # rest))"

text \<open>\<open>s.replace(pat, repl)\<close> with a string \<open>pat\<close>: the first occurrence only.\<close>

definition replace :: "string \<Rightarrow> string \<Rightarrow> string \<Rightarrow> string" where
  "replace s pat repl =
     (case indexOf s pat of
        None \<Rightarrow> s
      | Some i \<Rightarrow>
          (let preceding = take i s; following = drop (i + length pat) s
           in preceding @ getSubstitution pat preceding following repl @ following))"

text \<open>\<open>s.split('.')\<close> and \<open>parts.join('.')\<close>.\<close>

fun split_dot :: "string \<Rightarrow> string list" where
  "split_dot [] = [[]]"
| "split_dot (c # cs) =
     (if c = CHR ''.'' then [] # split_dot cs
      else (case split_dot cs of
              [] \<Rightarrow> [[c]]
            | p # ps \<Rightarrow> (c # p) # ps))"

fun join_dot :: "string list \<Rightarrow> string" where
  "join_dot [] = []"
| "join_dot [p] = p"
| "join_dot (p # q # ps) = p @ CHR ''.'' # join_dot (q # ps)"

text \<open>
  Template literals print a number in decimal (numbers below \<open>10\<^sup>2\<^sup>1\<close>, which
  every index and coordinate of a buffer is).
\<close>

definition digit_char :: "nat \<Rightarrow> char" where
  "digit_char d = ''0123456789'' ! d"

function string_of_nat :: "nat \<Rightarrow> string" where
  "string_of_nat n =
     (if n < 10 then [digit_char n]
      else string_of_nat (n div 10) @ [digit_char (n mod 10)])"
  by pat_completeness auto
termination
  by (relation "measure id") auto

declare string_of_nat.simps [simp del]

definition string_of_int :: "int \<Rightarrow> string" where
  "string_of_int i =
     (if i < 0 then CHR ''-'' # string_of_nat (nat (- i)) else string_of_nat (nat i))"

subsection \<open>Positions and ranges\<close>

record point =
  row :: nat
  column :: nat

text \<open>
  For the resolver a range is any object with these four members: a syntax node
  is one, and so is the object that \<open>determineCaptureRange\<close> builds.
\<close>

record capture_range =
  startPosition :: point
  startIndex :: int
  endPosition :: point
  endIndex :: int

definition comparePoints :: "point \<Rightarrow> point \<Rightarrow> int" where
  "comparePoints a b =
     (let rows = int (row a) - int (row b)
      in if rows = 0 then int (column a) - int (column b) else rows)"

definition isBetweenPoints :: "point \<Rightarrow> point \<Rightarrow> point \<Rightarrow> bool" where
  "isBetweenPoints p a b =
     (let comp = comparePoints a b;
          lesser = (if comp > 0 then b else a);
          greater = (if comp > 0 then a else b)
      in comparePoints p lesser \<ge> 0 \<and> comparePoints p greater \<le> 0)"


definition isValidRange :: "capture_range \<Rightarrow> bool" where
  \<comment> \<open>The four \<open>typeof\<close> checks of the source hold by the types of the record.\<close>
  "isValidRange rng =
     (if startIndex rng > endIndex rng then False
      else if comparePoints (startPosition rng) (endPosition rng) \<ge> 0 then False
      else True)"

subsection \<open>Syntax nodes\<close>

text \<open>
  A syntax tree carries, for each node, what the resolver reads from it. A node
  handle is a subtree together with the handle of its parent, so \<open>parent\<close>,
  \<open>firstChild\<close>, \<open>lastChild\<close>, \<open>childCount\<close> and \<open>child(i)\<close> are computed.
\<close>

datatype syntaxTree =
  SyntaxTree (tree_id: nat) (tree_type: string) (tree_text: string)
    (tree_extent: capture_range) (tree_hasError: bool) (tree_children: "syntaxTree list")

datatype node = Node (subtree: syntaxTree) (parent: "node option")

definition node_id :: "node \<Rightarrow> nat" where
  "node_id n = tree_id (subtree n)"

definition node_type :: "node \<Rightarrow> string" where
  "node_type n = tree_type (subtree n)"

definition node_text :: "node \<Rightarrow> string" where
  "node_text n = tree_text (subtree n)"

definition node_range :: "node \<Rightarrow> capture_range" where
  \<comment> \<open>the node itself, used as a range\<close>
  "node_range n = tree_extent (subtree n)"

definition hasError :: "node \<Rightarrow> bool" where
  "hasError n = tree_hasError (subtree n)"

definition children :: "node \<Rightarrow> node list" where
  "children n = map (\<lambda>t. Node t (Some n)) (tree_children (subtree n))"

definition childCount :: "node \<Rightarrow> nat" where
  "childCount n = length (children n)"

definition firstChild :: "node \<Rightarrow> node option" where
  "firstChild n = (case children n of [] \<Rightarrow> None | c # _ \<Rightarrow> Some c)"

definition lastChild :: "node \<Rightarrow> node option" where
  "lastChild n = (case rev (children n) of [] \<Rightarrow> None | c # _ \<Rightarrow> Some c)"

subsection \<open>Values, errors and the host\<close>

text \<open>
  The values that a dotted descriptor can reach. \<open>JObject\<close> stands for any other
  object (a function, an array, ...): the resolver only tests it for truth.
\<close>

datatype jsval =
  JUndefined | JNull | JBool bool | JNum int | JStr string
  | JPoint point | JNode node | JObject nat

fun truthy :: "jsval \<Rightarrow> bool" where
  "truthy JUndefined = False"
| "truthy JNull = False"
| "truthy (JBool b) = b"
| "truthy (JNum i) = (i \<noteq> 0)"
| "truthy (JStr s) = (s \<noteq> [])"
| "truthy (JPoint p) = True"
| "truthy (JNode n) = True"
| "truthy (JObject a) = True"

text \<open>
  \<open>CannotExtend\<close> is the \<open>Error('Cannot extend past original range of capture')\<close>
  that the source throws itself; \<open>TypeError\<close> and \<open>SyntaxError\<close> are thrown by the
  language on a member access on \<open>null\<close> or \<open>undefined\<close> and by \<open>new RegExp\<close>.

  The tables \<open>ScopeResolver.ADJUSTMENTS\<close> and \<open>ScopeResolver.TESTS\<close> are plain
  objects and the source looks keys up with \<open>in\<close>, which also finds the members
  inherited from \<open>Object.prototype\<close>. For such a key the source calls a built-in of
  the language in place of an adjustment or a test. The embedding does not follow
  these calls: it stops with \<open>InheritedMember\<close>. What the statements below say of
  a capture is said of the source when no key of the capture is such a name.
\<close>

datatype error = TypeError | SyntaxError | CannotExtend | InheritedMember string

definition objectPrototypeNames :: "string list" where
  "objectPrototypeNames =
     [''constructor'', ''__defineGetter__'', ''__defineSetter__'', ''hasOwnProperty'',
      ''__lookupGetter__'', ''__lookupSetter__'', ''isPrototypeOf'',
      ''propertyIsEnumerable'', ''toString'', ''valueOf'', ''__proto__'',
      ''toLocaleString'']"

text \<open>A compiled regular expression is an object; it is known by its reference.\<close>

datatype regExp = RegExp nat

text \<open>
  What the language and the syntax tree library provide:
  \<^item> \<open>toNumber\<close> is \<open>Number(value)\<close>, with \<open>None\<close> for \<open>NaN\<close>; an offset is a whole
    number of characters, so a fraction or an infinity is not represented;
  \<^item> \<open>newRegExp\<close> is \<open>new RegExp(pattern)\<close>, which throws on a malformed pattern;
  \<^item> \<open>regExpMatch regex text\<close> is \<open>text.match(regex)\<close>: \<open>None\<close> for \<open>null\<close>, else
    \<open>match.index\<close> and \<open>match[0].length\<close>;
  \<^item> \<open>descendantsOfType\<close> is the method of that name of a syntax node;
  \<^item> \<open>otherMember v k\<close> is \<open>v[k]\<close> for every member that is not modelled here.
\<close>

record host =
  toNumber :: "string \<Rightarrow> int option"
  newRegExp :: "string \<Rightarrow> error + regExp"
  regExpMatch :: "regExp \<Rightarrow> string \<Rightarrow> (nat \<times> nat) option"
  descendantsOfType :: "node \<Rightarrow> string \<Rightarrow> node list"
  otherMember :: "jsval \<Rightarrow> string \<Rightarrow> jsval"

definition option_node :: "node option \<Rightarrow> jsval" where
  "option_node v = (case v of None \<Rightarrow> JNull | Some n \<Rightarrow> JNode n)"

definition nodeMember :: "host \<Rightarrow> node \<Rightarrow> string \<Rightarrow> jsval" where
  "nodeMember h n k =
     (if k = ''startPosition'' then JPoint (startPosition (node_range n))
      else if k = ''endPosition'' then JPoint (endPosition (node_range n))
      else if k = ''startIndex'' then JNum (startIndex (node_range n))
      else if k = ''endIndex'' then JNum (endIndex (node_range n))
      else if k = ''type'' then JStr (node_type n)
      else if k = ''text'' then JStr (node_text n)
      else if k = ''id'' then JNum (int (node_id n))
      else if k = ''childCount'' then JNum (int (childCount n))
      else if k = ''parent'' then option_node (parent n)
      else if k = ''firstChild'' then option_node (firstChild n)
      else if k = ''lastChild'' then option_node (lastChild n)
      else otherMember h (JNode n) k)"

text \<open>\<open>v[k]\<close>: a \<open>TypeError\<close> on \<open>null\<close> and \<open>undefined\<close>.\<close>

fun getMember :: "host \<Rightarrow> jsval \<Rightarrow> string \<Rightarrow> error + jsval" where
  "getMember h JUndefined k = Inl TypeError"
| "getMember h JNull k = Inl TypeError"
| "getMember h (JNode n) k = Inr (nodeMember h n k)"
| "getMember h (JPoint p) k =
     Inr (if k = ''row'' then JNum (int (row p))
          else if k = ''column'' then JNum (int (column p))
          else otherMember h (JPoint p) k)"
| "getMember h v k = Inr (otherMember h v k)"

text \<open>The \<open>while\<close> loop of \<open>resolveNodeDescriptor\<close>, on the parts still to be read.\<close>

fun resolveParts :: "host \<Rightarrow> jsval \<Rightarrow> string list \<Rightarrow> error + jsval" where
  "resolveParts h result [] = Inr result"
| "resolveParts h result (part # parts) =
     (if result = JNull then Inr result
      else (case getMember h result part of
              Inl e \<Rightarrow> Inl e
            | Inr v \<Rightarrow> if \<not> truthy v then Inr JNull else resolveParts h v parts))"

definition resolveNodeDescriptor :: "host \<Rightarrow> node \<Rightarrow> string \<Rightarrow> error + jsval" where
  "resolveNodeDescriptor h n descriptor = resolveParts h (JNode n) (split_dot descriptor)"

definition resolveNodePosition :: "host \<Rightarrow> node \<Rightarrow> string \<Rightarrow> error + jsval" where
  "resolveNodePosition h n descriptor =
     (let parts = split_dot descriptor;
          lastPart = last parts;
          parts = butlast parts
      in case (if length parts = 0 then Inr (JNode n)
               else resolveNodeDescriptor h n (join_dot parts)) of
           Inl e \<Rightarrow> Inl e
         | Inr result \<Rightarrow> getMember h result lastPart)"


text \<open>
  \<open>isBetweenPoints(v, a, b)\<close> on a value that a descriptor resolved to: reading
  \<open>row\<close> of \<open>null\<close> or \<open>undefined\<close> is a \<open>TypeError\<close>; any value other than a
  position has no \<open>row\<close>, the differences are \<open>NaN\<close> and both comparisons fail, so
  the adjustment throws its own error.
\<close>

fun positionWithin :: "jsval \<Rightarrow> point \<Rightarrow> point \<Rightarrow> error + point" where
  "positionWithin (JPoint p) a b =
     (if \<not> isBetweenPoints p a b then Inl CannotExtend else Inr p)"
| "positionWithin JUndefined a b = Inl TypeError"
| "positionWithin JNull a b = Inl TypeError"
| "positionWithin v a b = Inl CannotExtend"

subsection \<open>The resolver\<close>

record text_buffer =
  positionForCharacterIndex :: "int \<Rightarrow> point"
  characterIndexForPosition :: "point \<Rightarrow> int"
  clipPosition :: "point \<Rightarrow> point"
  lineForRow :: "nat \<Rightarrow> string option"

record language_layer =
  layer_buffer :: text_buffer
  depth :: nat

text \<open>
  \<open>setProperties\<close> is an object whose members are enumerated in the order of
  their insertion: a list of pairs with distinct keys. (Keys that are array
  indices come first in JavaScript; no adjustment or test has such a name.)
\<close>

type_synonym props = "(string \<times> string) list"

record capture =
  node :: node
  name :: string
  setProperties :: "props option"

record 'i boundary_bundle =
  open_list :: "'i list"
  close_list :: "'i list"

record 'i resolver =
  languageLayer :: language_layer
  buffer :: text_buffer
  idForScope :: "string \<Rightarrow> 'i"
  map_boundary :: "string \<rightharpoonup> 'i boundary_bundle"
  rangeData :: "string \<rightharpoonup> props"
  patternCache :: "string \<rightharpoonup> regExp"

definition constructor :: "language_layer \<Rightarrow> (string \<Rightarrow> 'i) \<Rightarrow> 'i resolver" where
  "constructor layer idf =
     \<lparr>languageLayer = layer, buffer = layer_buffer layer, idForScope = idf,
      map_boundary = Map.empty, rangeData = Map.empty, patternCache = Map.empty\<rparr>"

definition getOrCompilePattern ::
  "host \<Rightarrow> 'i resolver \<Rightarrow> string \<Rightarrow> (error + regExp) \<times> 'i resolver" where
  "getOrCompilePattern h r pattern =
     (case patternCache r pattern of
        Some regex \<Rightarrow> (Inr regex, r)
      | None \<Rightarrow>
          (case newRegExp h pattern of
             Inl e \<Rightarrow> (Inl e, r)
           | Inr regex \<Rightarrow>
               (Inr regex, r\<lparr>patternCache := (patternCache r)(pattern \<mapsto> regex)\<rparr>)))"

definition indexToPosition :: "'i resolver \<Rightarrow> int \<Rightarrow> point" where
  "indexToPosition r index = positionForCharacterIndex (buffer r) index"

definition positionToIndex :: "'i resolver \<Rightarrow> point \<Rightarrow> int" where
  "positionToIndex r position = characterIndexForPosition (buffer r) position"

definition adjustPositionByOffset :: "'i resolver \<Rightarrow> point \<Rightarrow> int \<Rightarrow> point" where
  "adjustPositionByOffset r position offset =
     (let index = positionToIndex r position;
          index = index + offset;
          newPosition = indexToPosition r index
      in clipPosition (buffer r) newPosition)"

definition keyForPoint :: "point \<Rightarrow> string" where
  "keyForPoint p = string_of_nat (row p) @ '','' @ string_of_nat (column p)"

definition keyForRange :: "capture_range \<Rightarrow> string" where
  "keyForRange rng = string_of_int (startIndex rng) @ ''/'' @ string_of_int (endIndex rng)"

definition setDataForRange :: "'i resolver \<Rightarrow> capture_range \<Rightarrow> props \<Rightarrow> 'i resolver" where
  "setDataForRange r rng ps = r\<lparr>rangeData := (rangeData r)(keyForRange rng \<mapsto> ps)\<rparr>"

definition getDataForRange :: "'i resolver \<Rightarrow> capture_range \<Rightarrow> props option" where
  "getDataForRange r rng = rangeData r (keyForRange rng)"

definition props_of :: "capture \<Rightarrow> props" where
  \<comment> \<open>\<open>let { setProperties: props = {} } = capture\<close>\<close>
  "props_of c = (case setProperties c of None \<Rightarrow> [] | Some ps \<Rightarrow> ps)"

subsection \<open>Adjustments\<close>

type_synonym 'i adjusted = "(error + capture_range option) \<times> 'i resolver"

type_synonym 'i adjustment =
  "host \<Rightarrow> node \<Rightarrow> string \<Rightarrow> props \<Rightarrow> capture_range \<Rightarrow> 'i resolver \<Rightarrow> 'i adjusted"

definition startAt :: "'i adjustment" where
  "startAt h n val ps rng r =
     (case resolveNodePosition h n val of
        Inl e \<Rightarrow> (Inl e, r)
      | Inr start \<Rightarrow>
          (case positionWithin start (startPosition (node_range n))
                  (endPosition (node_range n)) of
             Inl e \<Rightarrow> (Inl e, r)
           | Inr p \<Rightarrow>
               (Inr (Some (rng\<lparr>startPosition := p, startIndex := positionToIndex r p\<rparr>)), r)))"

definition endAt :: "'i adjustment" where
  "endAt h n val ps rng r =
     (case resolveNodePosition h n val of
        Inl e \<Rightarrow> (Inl e, r)
      | Inr endp \<Rightarrow>
          (case positionWithin endp (startPosition (node_range n))
                  (endPosition (node_range n)) of
             Inl e \<Rightarrow> (Inl e, r)
           | Inr p \<Rightarrow>
               (Inr (Some (rng\<lparr>endPosition := p, endIndex := positionToIndex r p\<rparr>)), r)))"

definition offsetStart :: "'i adjustment" where
  "offsetStart h n val ps rng r =
     (case toNumber h val of
        None \<Rightarrow> (Inr None, r)
      | Some offset \<Rightarrow>
          (let offsetPosition = adjustPositionByOffset r (startPosition rng) offset;
               offsetIndex = positionToIndex r offsetPosition
           in if \<not> isBetweenPoints offsetPosition (startPosition (node_range n))
                     (endPosition (node_range n))
              then (Inl CannotExtend, r)
              else (Inr (Some (rng\<lparr>startPosition := offsetPosition,
                                     startIndex := offsetIndex\<rparr>)), r)))"

definition offsetEnd :: "'i adjustment" where
  "offsetEnd h n val ps rng r =
     (case toNumber h val of
        None \<Rightarrow> (Inr None, r)
      | Some offset \<Rightarrow>
          (let offsetPosition = adjustPositionByOffset r (endPosition rng) offset;
               offsetIndex = positionToIndex r offsetPosition
           in if \<not> isBetweenPoints offsetPosition (startPosition (node_range n))
                     (endPosition (node_range n))
              then (Inl CannotExtend, r)
              else (Inr (Some (rng\<lparr>endPosition := offsetPosition,
                                     endIndex := offsetIndex\<rparr>)), r)))"

definition startAndEndAroundFirstMatchOf :: "'i adjustment" where
  "startAndEndAroundFirstMatchOf h n val ps position r =
     (case getOrCompilePattern h r val of
        (Inl e, r') \<Rightarrow> (Inl e, r')
      | (Inr regex, r') \<Rightarrow>
          (case regExpMatch h regex (node_text n) of
             None \<Rightarrow> (Inr None, r')
           | Some (index, len) \<Rightarrow>
               (let oldStartPosition = startPosition (node_range n);
                    startOffset = int index;
                    endOffset = int index + int len;
                    sp = adjustPositionByOffset r' oldStartPosition startOffset;
                    ep = adjustPositionByOffset r' oldStartPosition endOffset
                in (Inr (Some (position\<lparr>startPosition := sp, endPosition := ep,
                      startIndex := positionToIndex r' sp,
                      endIndex := positionToIndex r' ep\<rparr>)), r'))))"

definition startBeforeFirstMatchOf :: "'i adjustment" where
  "startBeforeFirstMatchOf h n val ps position r =
     (case getOrCompilePattern h r val of
        (Inl e, r') \<Rightarrow> (Inl e, r')
      | (Inr regex, r') \<Rightarrow>
          (case regExpMatch h regex (node_text n) of
             None \<Rightarrow> (Inr None, r')
           | Some (index, len) \<Rightarrow>
               (let oldStartPosition = startPosition (node_range n);
                    startOffset = int index;
                    sp = adjustPositionByOffset r' oldStartPosition startOffset
                in (Inr (Some (position\<lparr>startPosition := sp,
                      startIndex := positionToIndex r' sp\<rparr>)), r'))))"

definition startAfterFirstMatchOf :: "'i adjustment" where
  "startAfterFirstMatchOf h n val ps position r =
     (case getOrCompilePattern h r val of
        (Inl e, r') \<Rightarrow> (Inl e, r')
      | (Inr regex, r') \<Rightarrow>
          (case regExpMatch h regex (node_text n) of
             None \<Rightarrow> (Inr None, r')
           | Some (index, len) \<Rightarrow>
               (let oldStartPosition = startPosition (node_range n);
                    startOffset = int index + int len;
                    sp = adjustPositionByOffset r' oldStartPosition startOffset
                in (Inr (Some (position\<lparr>startPosition := sp,
                      startIndex := positionToIndex r' sp\<rparr>)), r'))))"

definition endBeforeFirstMatchOf :: "'i adjustment" where
  "endBeforeFirstMatchOf h n val ps position r =
     (case getOrCompilePattern h r val of
        (Inl e, r') \<Rightarrow> (Inl e, r')
      | (Inr regex, r') \<Rightarrow>
          (case regExpMatch h regex (node_text n) of
             None \<Rightarrow> (Inr None, r')
           | Some (index, len) \<Rightarrow>
               (let oldStartPosition = startPosition (node_range n);
                    endOffset = int index;
                    ep = adjustPositionByOffset r' oldStartPosition endOffset
                in (Inr (Some (position\<lparr>endPosition := ep,
                      endIndex := positionToIndex r' ep\<rparr>)), r'))))"

definition endAfterFirstMatchOf :: "'i adjustment" where
  "endAfterFirstMatchOf h n val ps position r =
     (case getOrCompilePattern h r val of
        (Inl e, r') \<Rightarrow> (Inl e, r')
      | (Inr regex, r') \<Rightarrow>
          (case regExpMatch h regex (node_text n) of
             None \<Rightarrow> (Inr None, r')
           | Some (index, len) \<Rightarrow>
               (let oldStartPosition = startPosition (node_range n);
                    endOffset = int index + int len;
                    ep = adjustPositionByOffset r' oldStartPosition endOffset
                in (Inr (Some (position\<lparr>endPosition := ep,
                      endIndex := positionToIndex r' ep\<rparr>)), r'))))"

text \<open>The table \<open>ScopeResolver.ADJUSTMENTS\<close>, by its own keys.\<close>

definition ADJUSTMENTS :: "string \<Rightarrow> 'i adjustment option" where
  "ADJUSTMENTS key =
     (if key = ''startAt'' then Some startAt
      else if key = ''endAt'' then Some endAt
      else if key = ''offsetStart'' then Some offsetStart
      else if key = ''offsetEnd'' then Some offsetEnd
      else if key = ''startAndEndAroundFirstMatchOf'' then Some startAndEndAroundFirstMatchOf
      else if key = ''startBeforeFirstMatchOf'' then Some startBeforeFirstMatchOf
      else if key = ''startAfterFirstMatchOf'' then Some startAfterFirstMatchOf
      else if key = ''endBeforeFirstMatchOf'' then Some endBeforeFirstMatchOf
      else if key = ''endAfterFirstMatchOf'' then Some endAfterFirstMatchOf
      else None)"

definition adjustment_names :: "string list" where
  "adjustment_names =
     [''startAt'', ''endAt'', ''offsetStart'', ''offsetEnd'',
      ''startAndEndAroundFirstMatchOf'', ''startBeforeFirstMatchOf'',
      ''startAfterFirstMatchOf'', ''endBeforeFirstMatchOf'', ''endAfterFirstMatchOf'']"

definition in_ADJUSTMENTS :: "string \<Rightarrow> bool" where
  \<comment> \<open>\<open>key in ScopeResolver.ADJUSTMENTS\<close>\<close>
  "in_ADJUSTMENTS key =
     (key \<in> set adjustment_names \<or> key \<in> set objectPrototypeNames)"

definition adjustsCaptureRange :: "capture \<Rightarrow> bool" where
  "adjustsCaptureRange c =
     (let ps = props_of c; keys = map fst ps
      in if length keys = 0 then False else list_ex in_ADJUSTMENTS keys)"

text \<open>
  The \<open>for\<close> loop of \<open>determineCaptureRange\<close> over the members still to be
  visited; \<open>ps\<close> is the whole of \<open>props\<close>.
\<close>

fun applyAdjustments ::
  "host \<Rightarrow> node \<Rightarrow> props \<Rightarrow> props \<Rightarrow> capture_range \<Rightarrow> 'i resolver \<Rightarrow> 'i adjusted" where
  "applyAdjustments h n ps [] rng r = (Inr (Some rng), r)"
| "applyAdjustments h n ps ((key, val) # rest) rng r =
     (if in_ADJUSTMENTS key then
        (case ADJUSTMENTS key of
           None \<Rightarrow> (Inl (InheritedMember key), r)
         | Some adjust \<Rightarrow>
             (case adjust h n val ps rng r of
                (Inl e, r') \<Rightarrow> (Inl e, r')
              | (Inr None, r') \<Rightarrow> (Inr None, r')
              | (Inr (Some rng'), r') \<Rightarrow> applyAdjustments h n ps rest rng' r'))
      else applyAdjustments h n ps rest rng r)"

definition determineCaptureRange :: "host \<Rightarrow> 'i resolver \<Rightarrow> capture \<Rightarrow> 'i adjusted" where
  "determineCaptureRange h r c =
     (let ps = props_of c
      in if \<not> adjustsCaptureRange c then (Inr (Some (node_range (node c))), r)
         else
           (let rng = \<lparr>startPosition = startPosition (node_range (node c)),
                       startIndex = startIndex (node_range (node c)),
                       endPosition = endPosition (node_range (node c)),
                       endIndex = endIndex (node_range (node c))\<rparr>
            in case applyAdjustments h (node c) ps ps rng r of
                 (Inl e, r') \<Rightarrow> (Inl e, r')
               | (Inr None, r') \<Rightarrow> (Inr None, r')
               | (Inr (Some rng'), r') \<Rightarrow>
                   if \<not> isValidRange rng' then (Inr None, r')
                   else (Inr (Some rng'), r')))"


subsection \<open>Inclusion tests\<close>

type_synonym 'i inclusion_test =
  "host \<Rightarrow> node \<Rightarrow> string \<Rightarrow> props \<Rightarrow> props option \<Rightarrow> 'i resolver \<Rightarrow> error + bool"

text \<open>
  \<open>data.final\<close> as a condition: the member is there and its value, a string, is
  not empty.
\<close>

definition truthy_member :: "props \<Rightarrow> string \<Rightarrow> bool" where
  "truthy_member data k = (case map_of data k of None \<Rightarrow> False | Some v \<Rightarrow> v \<noteq> [])"

text \<open>\<open>key in data\<close>, for a \<open>setProperties\<close> object: own and inherited members.\<close>

definition in_object :: "string \<Rightarrow> props \<Rightarrow> bool" where
  "in_object key data = (key \<in> set (map fst data) \<or> key \<in> set objectPrototypeNames)"

fun ancestors :: "node \<Rightarrow> node list" where
  "ancestors (Node t None) = []"
| "ancestors (Node t (Some p)) = p # ancestors p"

definition final :: "'i inclusion_test" where
  "final h n val ps existingData r =
     Inr (\<not> (case existingData of None \<Rightarrow> False | Some d \<Rightarrow> truthy_member d ''final''))"

definition shy :: "'i inclusion_test" where
  "shy h n val ps existingData r = Inr (existingData = None)"

definition onlyIfError :: "'i inclusion_test" where
  "onlyIfError h n val ps existingData r = Inr (node_type n = ''ERROR'')"

definition onlyIfHasError :: "'i inclusion_test" where
  "onlyIfHasError h n val ps existingData r = Inr (hasError n)"

definition onlyIfInjection :: "'i inclusion_test" where
  "onlyIfInjection h n val ps existingData r = Inr (depth (languageLayer r) > 0)"

definition onlyIfRoot :: "'i inclusion_test" where
  "onlyIfRoot h n val ps existingData r = Inr (parent n = None)"

definition onlyIfFirst :: "'i inclusion_test" where
  "onlyIfFirst h n val ps existingData r =
     Inr (case parent n of
            None \<Rightarrow> True
          | Some p \<Rightarrow> (case firstChild p of None \<Rightarrow> False | Some c \<Rightarrow> node_id c = node_id n))"

definition onlyIfNotFirst :: "'i inclusion_test" where
  "onlyIfNotFirst h n val ps existingData r =
     Inr (case parent n of
            None \<Rightarrow> False
          | Some p \<Rightarrow> (case firstChild p of None \<Rightarrow> True | Some c \<Rightarrow> node_id c \<noteq> node_id n))"

definition onlyIfLast :: "'i inclusion_test" where
  "onlyIfLast h n val ps existingData r =
     Inr (case parent n of
            None \<Rightarrow> True
          | Some p \<Rightarrow> (case lastChild p of None \<Rightarrow> False | Some c \<Rightarrow> node_id c = node_id n))"

definition onlyIfNotLast :: "'i inclusion_test" where
  "onlyIfNotLast h n val ps existingData r =
     Inr (case parent n of
            None \<Rightarrow> False
          | Some p \<Rightarrow> (case lastChild p of None \<Rightarrow> True | Some c \<Rightarrow> node_id c \<noteq> node_id n))"

text \<open>
  The sibling scans of \<open>onlyIfFirstOfType\<close> and \<open>onlyIfLastOfType\<close>; a scan that
  runs off the end yields \<open>false\<close> (in the second test \<open>undefined\<close>, which \<open>test\<close>
  negates like \<open>false\<close>).
\<close>

fun scanSiblings :: "node \<Rightarrow> node list \<Rightarrow> bool" where
  "scanSiblings n [] = False"
| "scanSiblings n (child # rest) =
     (if node_id child = node_id n then True
      else if node_type child = node_type n then False
      else scanSiblings n rest)"

definition onlyIfFirstOfType :: "'i inclusion_test" where
  "onlyIfFirstOfType h n val ps existingData r =
     Inr (case parent n of None \<Rightarrow> True | Some p \<Rightarrow> scanSiblings n (children p))"

definition onlyIfLastOfType :: "'i inclusion_test" where
  "onlyIfLastOfType h n val ps existingData r =
     Inr (case parent n of None \<Rightarrow> True | Some p \<Rightarrow> scanSiblings n (rev (children p)))"

text \<open>The class \<open>\s\<close> of a regular expression, on code units below 256.\<close>

definition isWhiteSpace :: "char \<Rightarrow> bool" where
  "isWhiteSpace c =
     (c \<in> set [CHR 0x09, CHR 0x0A, CHR 0x0B, CHR 0x0C, CHR 0x0D, CHR 0x20, CHR 0xA0])"

definition onlyIfLastTextOnRow :: "'i inclusion_test" where
  "onlyIfLastTextOnRow h n val ps existingData r =
     (case lineForRow (buffer r) (row (endPosition (node_range n))) of
        None \<Rightarrow> Inl TypeError
      | Some line \<Rightarrow>
          (let textAfterNode = drop (column (endPosition (node_range n))) line
           in Inr (\<not> list_ex (\<lambda>c. \<not> isWhiteSpace c) textAfterNode)))"

definition onlyIfNotLastTextOnRow :: "'i inclusion_test" where
  "onlyIfNotLastTextOnRow h n val ps existingData r =
     (case onlyIfLastTextOnRow h n val ps existingData r of
        Inl e \<Rightarrow> Inl e
      | Inr isLastTextOnRow \<Rightarrow> Inr (\<not> isLastTextOnRow))"

definition onlyIfDescendantOfType :: "'i inclusion_test" where
  "onlyIfDescendantOfType h n type ps existingData r =
     Inr (list_ex (\<lambda>current. node_type current = type) (ancestors n))"

definition onlyIfNotDescendantOfType :: "'i inclusion_test" where
  "onlyIfNotDescendantOfType h n type ps existingData r =
     (case onlyIfDescendantOfType h n type ps existingData r of
        Inl e \<Rightarrow> Inl e
      | Inr isDescendantOfType \<Rightarrow> Inr (\<not> isDescendantOfType))"

definition onlyIfAncestorOfType :: "'i inclusion_test" where
  "onlyIfAncestorOfType h n type ps existingData r =
     Inr (length (descendantsOfType h n type) > 0)"

definition onlyIfNotAncestorOfType :: "'i inclusion_test" where
  "onlyIfNotAncestorOfType h n type ps existingData r =
     Inr (length (descendantsOfType h n type) = 0)"

definition onlyIfDescendantOfNodeWithData :: "'i inclusion_test" where
  "onlyIfDescendantOfNodeWithData h n key ps existingData r =
     Inr (list_ex
            (\<lambda>current. case getDataForRange r (node_range current) of
                          None \<Rightarrow> False
                        | Some data \<Rightarrow> in_object key data)
            (ancestors n))"

definition onlyIfNotDescendantOfNodeWithData :: "'i inclusion_test" where
  "onlyIfNotDescendantOfNodeWithData h n key ps existingData r =
     (case onlyIfDescendantOfNodeWithData h n key ps existingData r of
        Inl e \<Rightarrow> Inl e
      | Inr isDescendantOfNodeWithData \<Rightarrow> Inr (\<not> isDescendantOfNodeWithData))"

text \<open>\<open>otherNodePosition.row === node.startPosition.row\<close>, a strict equality.\<close>

definition sameRow :: "host \<Rightarrow> node \<Rightarrow> string \<Rightarrow> error + bool" where
  "sameRow h n descriptor =
     (case resolveNodePosition h n descriptor of
        Inl e \<Rightarrow> Inl e
      | Inr otherNodePosition \<Rightarrow>
          (case getMember h otherNodePosition ''row'' of
             Inl e \<Rightarrow> Inl e
           | Inr v \<Rightarrow> Inr (v = JNum (int (row (startPosition (node_range n)))))))"

definition onlyIfOnSameRowAs :: "'i inclusion_test" where
  "onlyIfOnSameRowAs h n descriptor ps existingData r = sameRow h n descriptor"

definition onlyIfNotOnSameRowAs :: "'i inclusion_test" where
  "onlyIfNotOnSameRowAs h n descriptor ps existingData r =
     (case sameRow h n descriptor of Inl e \<Rightarrow> Inl e | Inr same \<Rightarrow> Inr (\<not> same))"

text \<open>The table \<open>ScopeResolver.TESTS\<close>, by its own keys.\<close>

definition TESTS :: "string \<Rightarrow> 'i inclusion_test option" where
  "TESTS key =
     (if key = ''final'' then Some final
      else if key = ''shy'' then Some shy
      else if key = ''onlyIfError'' then Some onlyIfError
      else if key = ''onlyIfHasError'' then Some onlyIfHasError
      else if key = ''onlyIfInjection'' then Some onlyIfInjection
      else if key = ''onlyIfRoot'' then Some onlyIfRoot
      else if key = ''onlyIfFirst'' then Some onlyIfFirst
      else if key = ''onlyIfNotFirst'' then Some onlyIfNotFirst
      else if key = ''onlyIfLast'' then Some onlyIfLast
      else if key = ''onlyIfNotLast'' then Some onlyIfNotLast
      else if key = ''onlyIfFirstOfType'' then Some onlyIfFirstOfType
      else if key = ''onlyIfLastOfType'' then Some onlyIfLastOfType
      else if key = ''onlyIfLastTextOnRow'' then Some onlyIfLastTextOnRow
      else if key = ''onlyIfNotLastTextOnRow'' then Some onlyIfNotLastTextOnRow
      else if key = ''onlyIfDescendantOfType'' then Some onlyIfDescendantOfType
      else if key = ''onlyIfNotDescendantOfType'' then Some onlyIfNotDescendantOfType
      else if key = ''onlyIfAncestorOfType'' then Some onlyIfAncestorOfType
      else if key = ''onlyIfNotAncestorOfType'' then Some onlyIfNotAncestorOfType
      else if key = ''onlyIfDescendantOfNodeWithData''
        then Some onlyIfDescendantOfNodeWithData
      else if key = ''onlyIfNotDescendantOfNodeWithData''
        then Some onlyIfNotDescendantOfNodeWithData
      else if key = ''onlyIfOnSameRowAs'' then Some onlyIfOnSameRowAs
      else if key = ''onlyIfNotOnSameRowAs'' then Some onlyIfNotOnSameRowAs
      else None)"

definition test_names :: "string list" where
  "test_names =
     [''final'', ''shy'', ''onlyIfError'', ''onlyIfHasError'', ''onlyIfInjection'',
      ''onlyIfRoot'', ''onlyIfFirst'', ''onlyIfNotFirst'', ''onlyIfLast'',
      ''onlyIfNotLast'', ''onlyIfFirstOfType'', ''onlyIfLastOfType'',
      ''onlyIfLastTextOnRow'', ''onlyIfNotLastTextOnRow'', ''onlyIfDescendantOfType'',
      ''onlyIfNotDescendantOfType'', ''onlyIfAncestorOfType'',
      ''onlyIfNotAncestorOfType'', ''onlyIfDescendantOfNodeWithData'',
      ''onlyIfNotDescendantOfNodeWithData'', ''onlyIfOnSameRowAs'',
      ''onlyIfNotOnSameRowAs'']"

definition in_TESTS :: "string \<Rightarrow> bool" where
  \<comment> \<open>\<open>key in ScopeResolver.TESTS\<close>\<close>
  "in_TESTS key = (key \<in> set test_names \<or> key \<in> set objectPrototypeNames)"

text \<open>The \<open>for\<close> loop of \<open>test\<close> over the members still to be visited.\<close>

fun runTests ::
  "host \<Rightarrow> 'i resolver \<Rightarrow> props option \<Rightarrow> props \<Rightarrow> node \<Rightarrow> props \<Rightarrow> error + bool" where
  "runTests h r existingData ps n [] = Inr True"
| "runTests h r existingData ps n ((key, val) # rest) =
     (if \<not> in_TESTS key then runTests h r existingData ps n rest
      else (case TESTS key of
              None \<Rightarrow> Inl (InheritedMember key)
            | Some t \<Rightarrow>
                (case t h n val ps existingData r of
                   Inl e \<Rightarrow> Inl e
                 | Inr passed \<Rightarrow>
                     if \<not> passed then Inr False
                     else runTests h r existingData ps n rest)))"

definition test ::
  "host \<Rightarrow> 'i resolver \<Rightarrow> props option \<Rightarrow> props \<Rightarrow> node \<Rightarrow> error + bool" where
  "test h r existingData ps n =
     (if (case existingData of None \<Rightarrow> False | Some d \<Rightarrow> truthy_member d ''final'')
      then Inr False
      else runTests h r existingData ps n ps)"

subsection \<open>Storing a capture\<close>

definition interpolateName :: "string \<Rightarrow> node \<Rightarrow> string" where
  "interpolateName nm n =
     (let nm1 = (if includes_str nm ''_TEXT_'' \<and> \<not> includes_str (node_text n) '' ''
                 then replace nm ''_TEXT_'' (node_text n) else nm)
      in replace nm1 ''_TYPE_'' (node_type n))"

text \<open>The argument \<open>which\<close> is one of the literals \<open>'open'\<close> and \<open>'close'\<close>.\<close>

datatype which = Open | Close

definition setBoundary :: "'i resolver \<Rightarrow> point \<Rightarrow> 'i \<Rightarrow> which \<Rightarrow> bool \<Rightarrow> 'i resolver" where
  "setBoundary r p scope w root =
     (let key = keyForPoint p;
          b = (case map_boundary r key of
                 None \<Rightarrow> \<lparr>open_list = [], close_list = []\<rparr>
               | Some b \<Rightarrow> b);
          b' = (case w of
                  Open \<Rightarrow>
                    if root then b\<lparr>open_list := scope # open_list b\<rparr>
                    else b\<lparr>open_list := open_list b @ [scope]\<rparr>
                | Close \<Rightarrow>
                    if root then b\<lparr>close_list := close_list b @ [scope]\<rparr>
                    else b\<lparr>close_list := scope # close_list b\<rparr>)
      in r\<lparr>map_boundary := (map_boundary r)(key \<mapsto> b')\<rparr>)"

text \<open>
  \<open>store\<close> returns \<open>false\<close> (here \<open>Inr None\<close>) or the range (\<open>Inr (Some rng)\<close>), or
  it throws (\<open>Inl e\<close>); in each case the resolver it leaves behind is the second
  component.
\<close>

definition store :: "host \<Rightarrow> 'i resolver \<Rightarrow> capture \<Rightarrow> 'i adjusted" where
  "store h r c =
     (let n = node c;
          ps = props_of c;
          nm = interpolateName (name c) n
      in case determineCaptureRange h r c of
           (Inl e, r1) \<Rightarrow> (Inl e, r1)
         | (Inr None, r1) \<Rightarrow> (Inr None, r1)
         | (Inr (Some rng), r1) \<Rightarrow>
             (let data = getDataForRange r1 rng
              in case test h r1 data ps n of
                   Inl e \<Rightarrow> (Inl e, r1)
                 | Inr passed \<Rightarrow>
                     if \<not> passed then (Inr None, r1)
                     else
                       (let r2 = setDataForRange r1 rng ps
                        in if nm = ''_IGNORE_'' then (Inr None, r2)
                           else
                             (let scope = idForScope r2 nm;
                                  r3 = setBoundary r2 (startPosition rng) scope Open False;
                                  r4 = setBoundary r3 (endPosition rng) scope Close False
                              in (Inr (Some rng), r4)))))"

definition reset :: "'i resolver \<Rightarrow> 'i resolver" where
  "reset r = r\<lparr>map_boundary := Map.empty, rangeData := Map.empty\<rparr>"

subsection \<open>Notions used in the statements\<close>

text \<open>Captures stored one after the other, as a pass over the query results does.\<close>

definition store_each :: "host \<Rightarrow> 'i resolver \<Rightarrow> capture list \<Rightarrow> 'i resolver" where
  "store_each h r cs = foldl (\<lambda>r' c. snd (store h r' c)) r cs"

text \<open>
  The lists of the bundle at a position, as the iterator of the resolver reports
  them; a position without a bundle has none.
\<close>

definition open_at :: "'i resolver \<Rightarrow> point \<Rightarrow> 'i list" where
  "open_at r p = (case map_boundary r (keyForPoint p) of None \<Rightarrow> [] | Some b \<Rightarrow> open_list b)"

definition close_at :: "'i resolver \<Rightarrow> point \<Rightarrow> 'i list" where
  "close_at r p = (case map_boundary r (keyForPoint p) of None \<Rightarrow> [] | Some b \<Rightarrow> close_list b)"

text \<open>
  The resolver \<open>r'\<close> is \<open>r\<close> with, at most, more patterns in its cache.
\<close>

definition same_store :: "'i resolver \<Rightarrow> 'i resolver \<Rightarrow> bool" where
  "same_store r r' =
     (map_boundary r' = map_boundary r \<and> rangeData r' = rangeData r \<and>
      buffer r' = buffer r \<and> languageLayer r' = languageLayer r \<and>
      idForScope r' = idForScope r \<and> patternCache r \<subseteq>\<^sub>m patternCache r')"

text \<open>
  The position that a position-based adjustment resolves from the range so far,
  before it compares the position with the extent of the node: \<open>start\<close> in
  \<open>startAt\<close>, \<open>end\<close> in \<open>endAt\<close>, \<open>offsetPosition\<close> in \<open>offsetStart\<close> and \<open>offsetEnd\<close>.
\<close>

definition adjustmentPosition ::
  "host \<Rightarrow> 'i resolver \<Rightarrow> string \<Rightarrow> string \<Rightarrow> node \<Rightarrow> capture_range \<Rightarrow> point option" where
  "adjustmentPosition h r key val n rng =
     (if key = ''startAt'' \<or> key = ''endAt'' then
        (case resolveNodePosition h n val of Inr (JPoint p) \<Rightarrow> Some p | _ \<Rightarrow> None)
      else if key = ''offsetStart'' then
        map_option (adjustPositionByOffset r (startPosition rng)) (toNumber h val)
      else if key = ''offsetEnd'' then
        map_option (adjustPositionByOffset r (endPosition rng)) (toNumber h val)
      else None)"

subsection \<open>A small buffer, tree and host\<close>

text \<open>
  The buffer holds the one line \<open>ab cd\<close>; the tree is a \<open>program\<close> whose
  children are the word \<open>ab\<close>, a node of no width (as a parser inserts one for a
  missing token) and the word \<open>cd\<close>. The host knows three numbers and the
  pattern \<open>z\<close>.
\<close>

definition ex_buffer :: text_buffer where
  "ex_buffer =
     \<lparr>positionForCharacterIndex = (\<lambda>i. \<lparr>row = 0, column = nat i\<rparr>),
      characterIndexForPosition = (\<lambda>p. int (column p)),
      clipPosition = (\<lambda>p. \<lparr>row = 0, column = min (column p) 5\<rparr>),
      lineForRow = (\<lambda>r. if r = 0 then Some ''ab cd'' else None)\<rparr>"

definition ex_host :: host where
  "ex_host =
     \<lparr>toNumber = map_of [(''1'', 1), (''-1'', - 1), (''9'', 9)],
      newRegExp = (\<lambda>p. if p = ''z'' then Inr (RegExp 0) else Inl SyntaxError),
      regExpMatch = (\<lambda>re t. map_option (\<lambda>i. (i, 1)) (indexOf t ''z'')),
      descendantsOfType = (\<lambda>n t. []),
      otherMember = (\<lambda>v k. JUndefined)\<rparr>"

definition ex_span :: "nat \<Rightarrow> nat \<Rightarrow> capture_range" where
  "ex_span a b =
     \<lparr>startPosition = \<lparr>row = 0, column = a\<rparr>, startIndex = int a,
      endPosition = \<lparr>row = 0, column = b\<rparr>, endIndex = int b\<rparr>"

definition ex_root :: node where
  "ex_root =
     Node (SyntaxTree 0 ''program'' ''ab cd'' (ex_span 0 5) False
             [SyntaxTree 1 ''word'' ''ab'' (ex_span 0 2) False [],
              SyntaxTree 3 ''MISSING'' [] (ex_span 2 2) False [],
              SyntaxTree 2 ''word'' ''cd'' (ex_span 3 5) False []]) None"

definition ex_word :: node where
  "ex_word = Node (SyntaxTree 2 ''word'' ''cd'' (ex_span 3 5) False []) (Some ex_root)"

definition ex_missing :: node where
  "ex_missing = Node (SyntaxTree 3 ''MISSING'' [] (ex_span 2 2) False []) (Some ex_root)"

text \<open>A node whose text is \<open>$$\<close>, the process id of a shell script.\<close>

definition ex_dollars :: node where
  "ex_dollars =
     Node (SyntaxTree 4 ''special_variable_name'' ''$$'' (ex_span 0 2) False []) None"

definition ex_resolver :: "string resolver" where
  "ex_resolver = constructor \<lparr>layer_buffer = ex_buffer, depth = 0\<rparr> (\<lambda>x. x)"

text \<open>A capture of the word \<open>cd\<close>.\<close>

definition ex_capture :: "string \<Rightarrow> props option \<Rightarrow> capture" where
  "ex_capture nm ps = \<lparr>node = ex_word, name = nm, setProperties = ps\<rparr>"

section \<open>Properties\<close>

subsection \<open>Rules that evaluate the definitions on the small example\<close>

lemmas ex_defs =
  ex_buffer_def ex_host_def ex_span_def ex_root_def ex_word_def ex_missing_def
  ex_dollars_def ex_resolver_def ex_capture_def constructor_def

lemmas eval_defs =
  store_def determineCaptureRange_def adjustsCaptureRange_def props_of_def
  in_ADJUSTMENTS_def adjustment_names_def objectPrototypeNames_def ADJUSTMENTS_def
  startAt_def endAt_def offsetStart_def offsetEnd_def
  startAndEndAroundFirstMatchOf_def startBeforeFirstMatchOf_def startAfterFirstMatchOf_def
  endBeforeFirstMatchOf_def endAfterFirstMatchOf_def getOrCompilePattern_def
  resolveNodePosition_def resolveNodeDescriptor_def nodeMember_def option_node_def
  node_range_def node_text_def node_type_def node_id_def
  adjustPositionByOffset_def positionToIndex_def indexToPosition_def
  isBetweenPoints_def comparePoints_def isValidRange_def
  getDataForRange_def setDataForRange_def keyForRange_def keyForPoint_def
  string_of_int_def string_of_nat.simps digit_char_def
  test_def truthy_member_def in_TESTS_def test_names_def TESTS_def
  final_def shy_def onlyIfError_def onlyIfHasError_def onlyIfInjection_def onlyIfRoot_def
  onlyIfFirst_def onlyIfNotFirst_def onlyIfLast_def onlyIfNotLast_def onlyIfFirstOfType_def
  onlyIfLastOfType_def onlyIfLastTextOnRow_def onlyIfNotLastTextOnRow_def
  onlyIfDescendantOfType_def onlyIfNotDescendantOfType_def onlyIfAncestorOfType_def
  onlyIfNotAncestorOfType_def onlyIfDescendantOfNodeWithData_def
  onlyIfNotDescendantOfNodeWithData_def onlyIfOnSameRowAs_def onlyIfNotOnSameRowAs_def
  sameRow_def in_object_def isWhiteSpace_def hasError_def children_def childCount_def
  firstChild_def lastChild_def
  interpolateName_def includes_str_def replace_def setBoundary_def
  store_each_def open_at_def close_at_def adjustmentPosition_def reset_def Let_def

subsection \<open>Range resolution changes the pattern cache only\<close>

lemma same_store_refl [simp]: "same_store r r"
  by (simp add: same_store_def)

lemma same_store_trans: "same_store r r1 \<Longrightarrow> same_store r1 r2 \<Longrightarrow> same_store r r2"
  by (auto simp: same_store_def intro: map_le_trans)

lemma getOrCompilePattern_same: "same_store r (snd (getOrCompilePattern h r p))"
  by (auto simp: getOrCompilePattern_def same_store_def map_le_def
      split: option.splits sum.splits)

lemma getOrCompilePattern_same':
  "getOrCompilePattern h r p = (x, r') \<Longrightarrow> same_store r r'"
  using getOrCompilePattern_same [of r h p] by simp

lemma startAt_same: "same_store r (snd (startAt h n v ps rng r))"
  by (simp add: startAt_def split: sum.splits)

lemma endAt_same: "same_store r (snd (endAt h n v ps rng r))"
  by (simp add: endAt_def split: sum.splits)

lemma offsetStart_same: "same_store r (snd (offsetStart h n v ps rng r))"
  by (simp add: offsetStart_def Let_def split: option.splits)

lemma offsetEnd_same: "same_store r (snd (offsetEnd h n v ps rng r))"
  by (simp add: offsetEnd_def Let_def split: option.splits)

lemma startAndEndAroundFirstMatchOf_same:
  "same_store r (snd (startAndEndAroundFirstMatchOf h n v ps rng r))"
  by (auto simp: startAndEndAroundFirstMatchOf_def Let_def
      split: option.splits sum.splits prod.splits dest: getOrCompilePattern_same')

lemma startBeforeFirstMatchOf_same:
  "same_store r (snd (startBeforeFirstMatchOf h n v ps rng r))"
  by (auto simp: startBeforeFirstMatchOf_def Let_def
      split: option.splits sum.splits prod.splits dest: getOrCompilePattern_same')

lemma startAfterFirstMatchOf_same:
  "same_store r (snd (startAfterFirstMatchOf h n v ps rng r))"
  by (auto simp: startAfterFirstMatchOf_def Let_def
      split: option.splits sum.splits prod.splits dest: getOrCompilePattern_same')

lemma endBeforeFirstMatchOf_same:
  "same_store r (snd (endBeforeFirstMatchOf h n v ps rng r))"
  by (auto simp: endBeforeFirstMatchOf_def Let_def
      split: option.splits sum.splits prod.splits dest: getOrCompilePattern_same')

lemma endAfterFirstMatchOf_same:
  "same_store r (snd (endAfterFirstMatchOf h n v ps rng r))"
  by (auto simp: endAfterFirstMatchOf_def Let_def
      split: option.splits sum.splits prod.splits dest: getOrCompilePattern_same')

lemmas adjustment_same =
  startAt_same endAt_same offsetStart_same offsetEnd_same
  startAndEndAroundFirstMatchOf_same startBeforeFirstMatchOf_same
  startAfterFirstMatchOf_same endBeforeFirstMatchOf_same endAfterFirstMatchOf_same

lemma ADJUSTMENTS_same:
  "ADJUSTMENTS key = Some adjust \<Longrightarrow> same_store r (snd (adjust h n v ps rng r))"
  by (auto simp: ADJUSTMENTS_def adjustment_same split: if_splits)

lemma applyAdjustments_same:
  "same_store r (snd (applyAdjustments h n ps rest rng r))"
proof (induction rest arbitrary: rng r)
  case Nil
  show ?case by simp
next
  case (Cons kv rest)
  obtain key val where kv: "kv = (key, val)" by (cases kv)
  show ?case
  proof (cases "in_ADJUSTMENTS key")
    case False
    with kv Cons.IH show ?thesis by simp
  next
    case True
    show ?thesis
    proof (cases "ADJUSTMENTS key :: 'a adjustment option")
      case None
      with kv True show ?thesis by simp
    next
      case (Some adjust)
      have step: "same_store r (snd (adjust h n val ps rng r))"
        by (rule ADJUSTMENTS_same [OF Some])
      obtain res r' where res: "adjust h n val ps rng r = (res, r')"
        by (cases "adjust h n val ps rng r")
      with step have rr': "same_store r r'" by simp
      show ?thesis
      proof (cases res)
        case (Inl e)
        with kv True Some res rr' show ?thesis by simp
      next
        case (Inr o1)
        show ?thesis
        proof (cases o1)
          case None
          with Inr kv True Some res rr' show ?thesis by simp
        next
          case (Some rng')
          have "same_store r' (snd (applyAdjustments h n ps rest rng' r'))"
            by (rule Cons.IH)
          with rr' have "same_store r (snd (applyAdjustments h n ps rest rng' r'))"
            by (rule same_store_trans)
          with Some Inr kv True \<open>ADJUSTMENTS key = Some adjust\<close> res show ?thesis by simp
        qed
      qed
    qed
  qed
qed

lemma copy_of_range [simp]:
  "\<lparr>startPosition = startPosition x, startIndex = startIndex x,
    endPosition = endPosition x, endIndex = endIndex x\<rparr> = (x :: capture_range)"
  by (cases x) simp

lemma determineCaptureRange_same:
  "same_store r (snd (determineCaptureRange h r c))"
proof (cases "adjustsCaptureRange c")
  case False
  then show ?thesis by (simp add: determineCaptureRange_def)
next
  case True
  have "same_store r (snd (applyAdjustments h (node c) (props_of c) (props_of c)
          (node_range (node c)) r))"
    by (rule applyAdjustments_same)
  with True show ?thesis
    by (auto simp: determineCaptureRange_def Let_def split: prod.splits sum.splits option.splits)
qed

lemma adjustPositionByOffset_same:
  "same_store r r' \<Longrightarrow> adjustPositionByOffset r' = adjustPositionByOffset r"
  by (intro ext) (simp add: adjustPositionByOffset_def positionToIndex_def
      indexToPosition_def same_store_def)

lemma adjustmentPosition_same:
  "same_store r r' \<Longrightarrow> adjustmentPosition h r' key val n rng = adjustmentPosition h r key val n rng"
  by (simp add: adjustmentPosition_def adjustPositionByOffset_same)


subsection \<open>The tests read the buffer, the layer and the metadata\<close>

lemma TESTS_same:
  "TESTS key = Some t \<Longrightarrow> same_store r r' \<Longrightarrow> t h n v ps e r' = t h n v ps e r"
  by (auto simp: TESTS_def same_store_def final_def shy_def onlyIfError_def onlyIfHasError_def
      onlyIfInjection_def onlyIfRoot_def onlyIfFirst_def onlyIfNotFirst_def onlyIfLast_def
      onlyIfNotLast_def onlyIfFirstOfType_def onlyIfLastOfType_def onlyIfLastTextOnRow_def
      onlyIfNotLastTextOnRow_def onlyIfDescendantOfType_def onlyIfNotDescendantOfType_def
      onlyIfAncestorOfType_def onlyIfNotAncestorOfType_def onlyIfDescendantOfNodeWithData_def
      onlyIfNotDescendantOfNodeWithData_def onlyIfOnSameRowAs_def onlyIfNotOnSameRowAs_def
      getDataForRange_def
      split: if_splits)

lemma runTests_same:
  "same_store r r' \<Longrightarrow> runTests h r' e ps n rest = runTests h r e ps n rest"
proof (induction rest)
  case Nil
  show ?case by simp
next
  case (Cons kv rest)
  obtain key val where kv: "kv = (key, val)" by (cases kv)
  show ?case
  proof (cases "TESTS key :: 'a inclusion_test option")
    case None
    with kv Cons show ?thesis by simp
  next
    case (Some t)
    have "t h n val ps e r' = t h n val ps e r"
      using Some Cons.prems by (rule TESTS_same)
    with kv Some Cons show ?thesis by (simp split: sum.splits)
  qed
qed

lemma test_same: "same_store r r' \<Longrightarrow> test h r' e ps n = test h r e ps n"
  by (simp add: test_def runTests_same)

lemma getDataForRange_same: "same_store r r' \<Longrightarrow> getDataForRange r' rng = getDataForRange r rng"
  by (simp add: getDataForRange_def same_store_def)


subsection \<open>The paths through \<open>store\<close>\<close>

lemma store_range_raises:
  "fst (determineCaptureRange h r c) = Inl e \<Longrightarrow>
   store h r c = (Inl e, snd (determineCaptureRange h r c))"
  by (cases "determineCaptureRange h r c") (simp add: store_def)

lemma store_range_dropped:
  "fst (determineCaptureRange h r c) = Inr None \<Longrightarrow>
   store h r c = (Inr None, snd (determineCaptureRange h r c))"
  by (cases "determineCaptureRange h r c") (simp add: store_def)

lemma store_test_raises:
  assumes "fst (determineCaptureRange h r c) = Inr (Some rng)"
    and "test h r (getDataForRange r rng) (props_of c) (node c) = Inl e"
  shows "store h r c = (Inl e, snd (determineCaptureRange h r c))"
proof -
  obtain r1 where d: "determineCaptureRange h r c = (Inr (Some rng), r1)"
    using assms(1) by (cases "determineCaptureRange h r c") simp
  have s: "same_store r r1" using determineCaptureRange_same [of r h c] d by simp
  from assms(2) have "test h r1 (getDataForRange r1 rng) (props_of c) (node c) = Inl e"
    by (simp add: test_same [OF s] getDataForRange_same [OF s])
  with d show ?thesis by (simp add: store_def)
qed

lemma store_test_fails:
  assumes "fst (determineCaptureRange h r c) = Inr (Some rng)"
    and "test h r (getDataForRange r rng) (props_of c) (node c) = Inr False"
  shows "store h r c = (Inr None, snd (determineCaptureRange h r c))"
proof -
  obtain r1 where d: "determineCaptureRange h r c = (Inr (Some rng), r1)"
    using assms(1) by (cases "determineCaptureRange h r c") simp
  have s: "same_store r r1" using determineCaptureRange_same [of r h c] d by simp
  from assms(2) have "test h r1 (getDataForRange r1 rng) (props_of c) (node c) = Inr False"
    by (simp add: test_same [OF s] getDataForRange_same [OF s])
  with d show ?thesis by (simp add: store_def)
qed

lemma store_ignored:
  assumes "fst (determineCaptureRange h r c) = Inr (Some rng)"
    and "test h r (getDataForRange r rng) (props_of c) (node c) = Inr True"
    and "interpolateName (name c) (node c) = ''_IGNORE_''"
  shows "store h r c =
           (Inr None, setDataForRange (snd (determineCaptureRange h r c)) rng (props_of c))"
proof -
  obtain r1 where d: "determineCaptureRange h r c = (Inr (Some rng), r1)"
    using assms(1) by (cases "determineCaptureRange h r c") simp
  have s: "same_store r r1" using determineCaptureRange_same [of r h c] d by simp
  from assms(2) have "test h r1 (getDataForRange r1 rng) (props_of c) (node c) = Inr True"
    by (simp add: test_same [OF s] getDataForRange_same [OF s])
  with d assms(3) show ?thesis by (simp add: store_def)
qed

lemma store_accepted:
  assumes "fst (determineCaptureRange h r c) = Inr (Some rng)"
    and "test h r (getDataForRange r rng) (props_of c) (node c) = Inr True"
    and "interpolateName (name c) (node c) \<noteq> ''_IGNORE_''"
  shows "store h r c =
           (Inr (Some rng),
            setBoundary
              (setBoundary (setDataForRange (snd (determineCaptureRange h r c)) rng (props_of c))
                 (startPosition rng) (idForScope r (interpolateName (name c) (node c))) Open False)
              (endPosition rng) (idForScope r (interpolateName (name c) (node c))) Close False)"
proof -
  obtain r1 where d: "determineCaptureRange h r c = (Inr (Some rng), r1)"
    using assms(1) by (cases "determineCaptureRange h r c") simp
  have s: "same_store r r1" using determineCaptureRange_same [of r h c] d by simp
  from assms(2) have "test h r1 (getDataForRange r1 rng) (props_of c) (node c) = Inr True"
    by (simp add: test_same [OF s] getDataForRange_same [OF s])
  moreover from s have "idForScope r1 = idForScope r" by (simp add: same_store_def)
  ultimately show ?thesis using d assms(3) by (simp add: store_def setDataForRange_def Let_def)
qed


text \<open>Every call takes exactly one of the paths.\<close>

lemma store_paths:
  obtains
    (range_raises) e where "fst (determineCaptureRange h r c) = Inl e"
  | (range_dropped) "fst (determineCaptureRange h r c) = Inr None"
  | (test_raises) rng e where "fst (determineCaptureRange h r c) = Inr (Some rng)"
      "test h r (getDataForRange r rng) (props_of c) (node c) = Inl e"
  | (test_fails) rng where "fst (determineCaptureRange h r c) = Inr (Some rng)"
      "test h r (getDataForRange r rng) (props_of c) (node c) = Inr False"
  | (passes) rng where "fst (determineCaptureRange h r c) = Inr (Some rng)"
      "test h r (getDataForRange r rng) (props_of c) (node c) = Inr True"
proof (cases "fst (determineCaptureRange h r c)")
  case (Inl e)
  then show ?thesis by (rule range_raises)
next
  case (Inr o1)
  show ?thesis
  proof (cases o1)
    case None
    with Inr show ?thesis by (simp add: range_dropped)
  next
    case (Some rng)
    with Inr have d: "fst (determineCaptureRange h r c) = Inr (Some rng)" by simp
    show ?thesis
    proof (cases "test h r (getDataForRange r rng) (props_of c) (node c)")
      case (Inl e)
      with d show ?thesis by (rule test_raises)
    next
      case (Inr passed)
      with d show ?thesis by (cases passed) (auto intro: test_fails passes)
    qed
  qed
qed

lemma store_returns_range:
  assumes "fst (store h r c) = Inr (Some rng)"
  shows "fst (determineCaptureRange h r c) = Inr (Some rng) \<and>
         test h r (getDataForRange r rng) (props_of c) (node c) = Inr True \<and>
         interpolateName (name c) (node c) \<noteq> ''_IGNORE_''"
proof (cases h r c rule: store_paths)
  case (range_raises e)
  from store_range_raises [OF this] assms show ?thesis by simp
next
  case range_dropped
  from store_range_dropped [OF this] assms show ?thesis by simp
next
  case (test_raises rng' e)
  from store_test_raises [OF this] assms show ?thesis by simp
next
  case (test_fails rng')
  from store_test_fails [OF this] assms show ?thesis by simp
next
  case (passes rng')
  show ?thesis
  proof (cases "interpolateName (name c) (node c) = ''_IGNORE_''")
    case True
    from store_ignored [OF passes True] assms show ?thesis by simp
  next
    case False
    from store_accepted [OF passes False] assms have "rng' = rng" by simp
    with passes False show ?thesis by simp
  qed
qed

lemma store_unchanged_unless_passed:
  assumes "\<not> (\<exists>rng. fst (determineCaptureRange h r c) = Inr (Some rng) \<and>
              test h r (getDataForRange r rng) (props_of c) (node c) = Inr True)"
  shows "same_store r (snd (store h r c))"
proof (cases h r c rule: store_paths)
  case (range_raises e)
  from store_range_raises [OF this] show ?thesis by (simp add: determineCaptureRange_same)
next
  case range_dropped
  from store_range_dropped [OF this] show ?thesis by (simp add: determineCaptureRange_same)
next
  case (test_raises rng' e)
  from store_test_raises [OF this] show ?thesis by (simp add: determineCaptureRange_same)
next
  case (test_fails rng')
  from store_test_fails [OF this] show ?thesis by (simp add: determineCaptureRange_same)
next
  case (passes rng')
  with assms show ?thesis by blast
qed


subsection \<open>Boundaries\<close>

lemma rangeData_setBoundary: "rangeData (setBoundary r p s w root) = rangeData r"
  by (simp add: setBoundary_def Let_def)

lemma idForScope_setBoundary: "idForScope (setBoundary r p s w root) = idForScope r"
  by (simp add: setBoundary_def Let_def)

lemma open_at_setBoundary_Open:
  "open_at (setBoundary r p s Open False) q =
     (if keyForPoint q = keyForPoint p then open_at r q @ [s] else open_at r q)"
  by (simp add: open_at_def setBoundary_def Let_def split: option.splits)

lemma open_at_setBoundary_Close:
  "open_at (setBoundary r p s Close False) q = open_at r q"
  by (simp add: open_at_def setBoundary_def Let_def split: option.splits)

lemma close_at_setBoundary_Close:
  "close_at (setBoundary r p s Close False) q =
     (if keyForPoint q = keyForPoint p then s # close_at r q else close_at r q)"
  by (simp add: close_at_def setBoundary_def Let_def split: option.splits)

lemma close_at_setBoundary_Open:
  "close_at (setBoundary r p s Open False) q = close_at r q"
  by (simp add: close_at_def setBoundary_def Let_def split: option.splits)

lemma open_at_cong: "map_boundary r' = map_boundary r \<Longrightarrow> open_at r' q = open_at r q"
  by (simp add: open_at_def)

lemma close_at_cong: "map_boundary r' = map_boundary r \<Longrightarrow> close_at r' q = close_at r q"
  by (simp add: close_at_def)

lemma store_boundaries:
  assumes "store h r c = (Inr (Some rng), r')"
  shows "open_at r' q =
           (if keyForPoint q = keyForPoint (startPosition rng)
            then open_at r q @ [idForScope r (interpolateName (name c) (node c))]
            else open_at r q)"
    and "close_at r' q =
           (if keyForPoint q = keyForPoint (endPosition rng)
            then idForScope r (interpolateName (name c) (node c)) # close_at r q
            else close_at r q)"
    and "idForScope r' = idForScope r"
proof -
  from assms have "fst (store h r c) = Inr (Some rng)" by simp
  from store_returns_range [OF this]
  have d: "fst (determineCaptureRange h r c) = Inr (Some rng)"
    and t: "test h r (getDataForRange r rng) (props_of c) (node c) = Inr True"
    and i: "interpolateName (name c) (node c) \<noteq> ''_IGNORE_''" by simp_all
  let ?r1 = "snd (determineCaptureRange h r c)"
  have s: "same_store r ?r1" by (rule determineCaptureRange_same)
  then have m: "map_boundary (setDataForRange ?r1 rng (props_of c)) = map_boundary r"
    by (simp add: same_store_def setDataForRange_def)
  have r': "r' = setBoundary
              (setBoundary (setDataForRange ?r1 rng (props_of c))
                 (startPosition rng) (idForScope r (interpolateName (name c) (node c))) Open False)
              (endPosition rng) (idForScope r (interpolateName (name c) (node c))) Close False"
    using store_accepted [OF d t i] assms by simp
  show "open_at r' q =
           (if keyForPoint q = keyForPoint (startPosition rng)
            then open_at r q @ [idForScope r (interpolateName (name c) (node c))]
            else open_at r q)"
    unfolding r' by (simp add: open_at_setBoundary_Close open_at_setBoundary_Open open_at_cong [OF m])
  show "close_at r' q =
           (if keyForPoint q = keyForPoint (endPosition rng)
            then idForScope r (interpolateName (name c) (node c)) # close_at r q
            else close_at r q)"
    unfolding r' by (simp add: close_at_setBoundary_Close close_at_setBoundary_Open close_at_cong [OF m])
  from s show "idForScope r' = idForScope r"
    unfolding r' by (simp add: idForScope_setBoundary setDataForRange_def same_store_def)
qed


subsection \<open>The loop over the adjustments\<close>

lemma determineCaptureRange_adjusted:
  assumes "adjustsCaptureRange c"
  shows "determineCaptureRange h r c =
     (case applyAdjustments h (node c) (props_of c) (props_of c) (node_range (node c)) r of
        (Inl e, r') \<Rightarrow> (Inl e, r')
      | (Inr None, r') \<Rightarrow> (Inr None, r')
      | (Inr (Some rng'), r') \<Rightarrow>
          if \<not> isValidRange rng' then (Inr None, r') else (Inr (Some rng'), r'))"
  using assms by (simp add: determineCaptureRange_def Let_def)

lemma applyAdjustments_append:
  "applyAdjustments h n ps (pre @ rest) rng r =
     (case applyAdjustments h n ps pre rng r of
        (Inl e, r1) \<Rightarrow> (Inl e, r1)
      | (Inr None, r1) \<Rightarrow> (Inr None, r1)
      | (Inr (Some rng1), r1) \<Rightarrow> applyAdjustments h n ps rest rng1 r1)"
proof (induction pre arbitrary: rng r)
  case Nil
  show ?case by simp
next
  case (Cons kv pre)
  obtain key val where kv: "kv = (key, val)" by (cases kv)
  show ?case
    using Cons.IH
    by (simp add: kv split: option.splits prod.splits sum.splits)
qed

lemma adjustsCaptureRange_member:
  assumes "props_of c = pre @ (key, val) # post" and "in_ADJUSTMENTS key"
  shows "adjustsCaptureRange c"
  using assms by (auto simp: adjustsCaptureRange_def list_ex_iff)

lemma position_adjustment_raises:
  assumes "adjustmentPosition h r key val n rng = Some p"
    and "\<not> isBetweenPoints p (startPosition (node_range n)) (endPosition (node_range n))"
  shows "\<exists>adjust. (ADJUSTMENTS key :: 'a adjustment option) = Some adjust \<and> in_ADJUSTMENTS key \<and>
           adjust h n val ps rng (r :: 'a resolver) = (Inl CannotExtend, r)"
proof -
  from assms(1) consider "key = ''startAt''" | "key = ''endAt''"
    | "key = ''offsetStart''" | "key = ''offsetEnd''"
    by (auto simp: adjustmentPosition_def split: if_splits)
  then show ?thesis
  proof cases
    case 1
    with assms show ?thesis
      by (auto simp: adjustmentPosition_def ADJUSTMENTS_def in_ADJUSTMENTS_def
          adjustment_names_def startAt_def split: sum.splits jsval.splits)
  next
    case 2
    with assms show ?thesis
      by (auto simp: adjustmentPosition_def ADJUSTMENTS_def in_ADJUSTMENTS_def
          adjustment_names_def endAt_def split: sum.splits jsval.splits)
  next
    case 3
    with assms show ?thesis
      by (auto simp: adjustmentPosition_def ADJUSTMENTS_def in_ADJUSTMENTS_def
          adjustment_names_def offsetStart_def Let_def)
  next
    case 4
    with assms show ?thesis
      by (auto simp: adjustmentPosition_def ADJUSTMENTS_def in_ADJUSTMENTS_def
          adjustment_names_def offsetEnd_def Let_def)
  qed
qed


subsection \<open>Metadata marked \<open>final\<close>\<close>

lemma final_rejects:
  assumes "rangeData r (keyForRange rng) = Some d" and "truthy_member d ''final''"
  shows "test h r (getDataForRange r rng) ps n = Inr False"
  using assms by (simp add: test_def getDataForRange_def)

lemma final_persists:
  assumes "rangeData r key = Some d" and "truthy_member d ''final''"
  shows "rangeData (snd (store h r c)) key = Some d"
proof (cases "\<exists>rng. fst (determineCaptureRange h r c) = Inr (Some rng) \<and>
              test h r (getDataForRange r rng) (props_of c) (node c) = Inr True")
  case False
  from store_unchanged_unless_passed [OF this] assms(1) show ?thesis
    by (simp add: same_store_def)
next
  case True
  then obtain rng where d: "fst (determineCaptureRange h r c) = Inr (Some rng)"
    and t: "test h r (getDataForRange r rng) (props_of c) (node c) = Inr True" by blast
  have ne: "keyForRange rng \<noteq> key"
  proof
    assume "keyForRange rng = key"
    with assms have "test h r (getDataForRange r rng) (props_of c) (node c) = Inr False"
      by (simp add: final_rejects)
    with t show False by simp
  qed
  have s: "same_store r (snd (determineCaptureRange h r c))"
    by (rule determineCaptureRange_same)
  show ?thesis
  proof (cases "interpolateName (name c) (node c) = ''_IGNORE_''")
    case True
    from s ne assms(1) show ?thesis
      by (simp add: store_ignored [OF d t True] setDataForRange_def same_store_def)
  next
    case False
    from s ne assms(1) show ?thesis
      by (simp add: store_accepted [OF d t False] setDataForRange_def same_store_def
          rangeData_setBoundary)
  qed
qed

lemma final_persists_each:
  assumes "truthy_member d ''final''"
  shows "rangeData r key = Some d \<Longrightarrow> rangeData (store_each h r cs) key = Some d"
proof (induction cs arbitrary: r)
  case Nil
  then show ?case by (simp add: store_each_def)
next
  case (Cons c cs)
  from Cons.prems assms have "rangeData (snd (store h r c)) key = Some d"
    by (rule final_persists)
  then have "rangeData (store_each h (snd (store h r c)) cs) key = Some d"
    by (rule Cons.IH)
  then show ?case by (simp add: store_each_def)
qed

section \<open>The claims\<close>

subsection \<open>C1: a range marked \<open>final\<close>\<close>

text \<open>
  C1, as amended. Once the metadata of a range holds a member \<open>final\<close> whose value
  is truthy (a string that is not empty), every later call of \<open>store\<close>, whatever
  captures were stored in between, with a capture that resolves to a range of the
  same key returns \<open>false\<close> and changes neither the metadata nor the boundaries,
  whatever the members of that capture are.
\<close>

theorem truthy_final_rejects_every_later_capture:
  assumes "rangeData r key = Some d" and "truthy_member d ''final''"
    and "fst (determineCaptureRange h (store_each h r cs) c) = Inr (Some rng)"
    and "keyForRange rng = key"
  shows "fst (store h (store_each h r cs) c) = Inr None
         \<and> rangeData (snd (store h (store_each h r cs) c)) = rangeData (store_each h r cs)
         \<and> map_boundary (snd (store h (store_each h r cs) c)) = map_boundary (store_each h r cs)"
proof -
  let ?r = "store_each h r cs"
  have "rangeData ?r (keyForRange rng) = Some d"
    using final_persists_each [OF assms(2) assms(1)] assms(4) by simp
  then have "test h ?r (getDataForRange ?r rng) (props_of c) (node c) = Inr False"
    using assms(2) by (rule final_rejects)
  from store_test_fails [OF assms(3) this]
  have st: "store h ?r c = (Inr None, snd (determineCaptureRange h ?r c))" .
  have "same_store ?r (snd (determineCaptureRange h ?r c))"
    by (rule determineCaptureRange_same)
  with st show ?thesis by (simp add: same_store_def)
qed

theorem truthy_final_rejects_every_later_capture_witness:
  "rangeData (snd (store ex_host ex_resolver (ex_capture ''a'' (Some [(''final'', ''true'')]))))
     ''3/5'' = Some [(''final'', ''true'')]
   \<and> fst (determineCaptureRange ex_host
          (store_each ex_host
             (snd (store ex_host ex_resolver (ex_capture ''a'' (Some [(''final'', ''true'')]))))
             [\<lparr>node = ex_root, name = ''p'', setProperties = None\<rparr>])
          (ex_capture ''b'' (Some [(''onlyIfLast'', ''true'')]))) = Inr (Some (ex_span 3 5))
   \<and> fst (store ex_host
          (store_each ex_host
             (snd (store ex_host ex_resolver (ex_capture ''a'' (Some [(''final'', ''true'')]))))
             [\<lparr>node = ex_root, name = ''p'', setProperties = None\<rparr>])
          (ex_capture ''b'' (Some [(''onlyIfLast'', ''true'')]))) = Inr None"
proof -
  let ?r = "snd (store ex_host ex_resolver (ex_capture ''a'' (Some [(''final'', ''true'')])))"
  let ?cs = "[\<lparr>node = ex_root, name = ''p'', setProperties = None\<rparr>]"
  let ?c = "ex_capture ''b'' (Some [(''onlyIfLast'', ''true'')])"
  have h1: "rangeData ?r ''3/5'' = Some [(''final'', ''true'')]"
    by (simp add: ex_defs eval_defs)
  have h2: "truthy_member [(''final'', ''true'')] ''final''"
    by (simp add: truthy_member_def)
  have h3: "fst (determineCaptureRange ex_host (store_each ex_host ?r ?cs) ?c)
              = Inr (Some (ex_span 3 5))"
    by (simp add: ex_defs eval_defs)
  have h4: "keyForRange (ex_span 3 5) = ''3/5''"
    by (simp add: ex_defs eval_defs)
  from truthy_final_rejects_every_later_capture [OF h1 h2 h3 h4]
  have "fst (store ex_host (store_each ex_host ?r ?cs) ?c) = Inr None" by blast
  with h1 h3 show ?thesis by blast
qed

text \<open>
  The claim as it stands speaks of metadata that contains the key \<open>final\<close>. A
  capture with \<open>(#set! final "")\<close> records such metadata, and the next capture of
  the same range is stored all the same.
\<close>

theorem final_with_empty_value_does_not_reject:
  "getDataForRange
     (snd (store ex_host ex_resolver (ex_capture ''a'' (Some [(''final'', [])]))))
     (ex_span 3 5) = Some [(''final'', [])]
   \<and> fst (determineCaptureRange ex_host
          (snd (store ex_host ex_resolver (ex_capture ''a'' (Some [(''final'', [])]))))
          (ex_capture ''b'' None)) = Inr (Some (ex_span 3 5))
   \<and> fst (store ex_host
          (snd (store ex_host ex_resolver (ex_capture ''a'' (Some [(''final'', [])]))))
          (ex_capture ''b'' None)) = Inr (Some (ex_span 3 5))
   \<and> open_at
        (snd (store ex_host
          (snd (store ex_host ex_resolver (ex_capture ''a'' (Some [(''final'', [])]))))
          (ex_capture ''b'' None)))
        \<lparr>row = 0, column = 3\<rparr> = [''a'', ''b'']"
  by (simp add: ex_defs eval_defs)

subsection \<open>C2: whose metadata a range holds\<close>

text \<open>
  C2, as amended. The metadata of a range is the \<open>setProperties\<close> of the capture
  that passed its tests for that range last: whatever an earlier capture stored
  there, a capture that resolves to the range and passes its tests replaces the
  metadata of the range with its own properties.
\<close>

theorem passing_capture_overwrites_metadata:
  assumes "fst (determineCaptureRange h r c) = Inr (Some rng)"
    and "test h r (getDataForRange r rng) (props_of c) (node c) = Inr True"
  shows "getDataForRange (snd (store h r c)) rng = Some (props_of c)"
proof (cases "interpolateName (name c) (node c) = ''_IGNORE_''")
  case True
  show ?thesis
    by (simp add: store_ignored [OF assms True] setDataForRange_def getDataForRange_def)
next
  case False
  show ?thesis
    by (simp add: store_accepted [OF assms False] setDataForRange_def getDataForRange_def
        rangeData_setBoundary)
qed

theorem passing_capture_overwrites_metadata_witness:
  "getDataForRange
     (snd (store ex_host ex_resolver (ex_capture ''a'' (Some [(''x'', ''1'')]))))
     (ex_span 3 5) = Some [(''x'', ''1'')]
   \<and> getDataForRange
        (snd (store ex_host
           (snd (store ex_host ex_resolver (ex_capture ''a'' (Some [(''x'', ''1'')]))))
           (ex_capture ''b'' (Some [(''onlyIfLast'', ''true'')]))))
        (ex_span 3 5) = Some [(''onlyIfLast'', ''true'')]"
proof -
  let ?r = "snd (store ex_host ex_resolver (ex_capture ''a'' (Some [(''x'', ''1'')])))"
  let ?c = "ex_capture ''b'' (Some [(''onlyIfLast'', ''true'')])"
  have h0: "getDataForRange ?r (ex_span 3 5) = Some [(''x'', ''1'')]"
    by (simp add: ex_defs eval_defs)
  have h1: "fst (determineCaptureRange ex_host ?r ?c) = Inr (Some (ex_span 3 5))"
    by (simp add: ex_defs eval_defs)
  have h2: "test ex_host ?r (getDataForRange ?r (ex_span 3 5)) (props_of ?c) (node ?c) = Inr True"
    by (simp add: ex_defs eval_defs)
  have p: "props_of ?c = [(''onlyIfLast'', ''true'')]"
    by (simp add: ex_defs eval_defs)
  from passing_capture_overwrites_metadata [OF h1 h2]
  have "getDataForRange (snd (store ex_host ?r ?c)) (ex_span 3 5)
          = Some [(''onlyIfLast'', ''true'')]"
    by (simp only: p)
  with h0 show ?thesis by blast
qed

text \<open>
  The claim as it stands keeps the properties of the first capture: here the
  first capture, without \<open>final\<close>, claims the range, the second passes its test
  and the range holds the properties of the second.
\<close>

theorem first_metadata_is_replaced:
  "fst (store ex_host ex_resolver (ex_capture ''a'' (Some [(''onlyIfLast'', ''true'')])))
     = Inr (Some (ex_span 3 5))
   \<and> getDataForRange
        (snd (store ex_host ex_resolver (ex_capture ''a'' (Some [(''onlyIfLast'', ''true'')]))))
        (ex_span 3 5) = Some [(''onlyIfLast'', ''true'')]
   \<and> fst (store ex_host
          (snd (store ex_host ex_resolver (ex_capture ''a'' (Some [(''onlyIfLast'', ''true'')]))))
          (ex_capture ''b'' (Some [(''onlyIfNotFirst'', ''true'')]))) = Inr (Some (ex_span 3 5))
   \<and> getDataForRange
        (snd (store ex_host
           (snd (store ex_host ex_resolver (ex_capture ''a'' (Some [(''onlyIfLast'', ''true'')]))))
           (ex_capture ''b'' (Some [(''onlyIfNotFirst'', ''true'')]))))
        (ex_span 3 5) = Some [(''onlyIfNotFirst'', ''true'')]"
  by (simp add: ex_defs eval_defs)

subsection \<open>C3: invalid ranges\<close>

text \<open>
  C3, as amended. For every capture with at least one adjustment among its
  members: if the range that its adjustments produce is invalid (\<open>startIndex\<close>
  greater than \<open>endIndex\<close>, or \<open>startPosition\<close> not strictly before \<open>endPosition\<close>),
  \<open>store\<close> returns \<open>false\<close> and changes neither the metadata nor the boundaries, and
  a range that \<open>store\<close> returns for such a capture is valid. The range of a
  capture without adjustments is its node and is not validated.
\<close>

theorem adjusted_capture_with_invalid_range_is_dropped:
  assumes "adjustsCaptureRange c"
  shows "(fst (applyAdjustments h (node c) (props_of c) (props_of c) (node_range (node c)) r)
            = Inr (Some rng) \<and> \<not> isValidRange rng
          \<longrightarrow> fst (store h r c) = Inr None
              \<and> map_boundary (snd (store h r c)) = map_boundary r
              \<and> rangeData (snd (store h r c)) = rangeData r)
         \<and> (\<forall>rng'. fst (store h r c) = Inr (Some rng') \<longrightarrow> isValidRange rng')"
proof (intro conjI impI allI)
  assume a: "fst (applyAdjustments h (node c) (props_of c) (props_of c) (node_range (node c)) r)
            = Inr (Some rng) \<and> \<not> isValidRange rng"
  then have d: "fst (determineCaptureRange h r c) = Inr None"
    by (cases "applyAdjustments h (node c) (props_of c) (props_of c) (node_range (node c)) r")
       (simp add: determineCaptureRange_adjusted [OF assms])
  have s: "same_store r (snd (determineCaptureRange h r c))"
    by (rule determineCaptureRange_same)
  from store_range_dropped [OF d] show "fst (store h r c) = Inr None" by simp
  from store_range_dropped [OF d] s show "map_boundary (snd (store h r c)) = map_boundary r"
    by (simp add: same_store_def)
  from store_range_dropped [OF d] s show "rangeData (snd (store h r c)) = rangeData r"
    by (simp add: same_store_def)
next
  fix rng'
  assume "fst (store h r c) = Inr (Some rng')"
  from store_returns_range [OF this]
  have "fst (determineCaptureRange h r c) = Inr (Some rng')" by simp
  then show "isValidRange rng'"
    by (cases "applyAdjustments h (node c) (props_of c) (props_of c) (node_range (node c)) r")
       (auto simp: determineCaptureRange_adjusted [OF assms]
          split: sum.splits option.splits if_splits)
qed

theorem adjusted_capture_with_invalid_range_is_dropped_witness:
  "adjustsCaptureRange (ex_capture ''a'' (Some [(''offsetStart'', ''9'')]))
   \<and> fst (applyAdjustments ex_host ex_word [(''offsetStart'', ''9'')] [(''offsetStart'', ''9'')]
          (ex_span 3 5) ex_resolver) = Inr (Some (ex_span 5 5))
   \<and> \<not> isValidRange (ex_span 5 5)
   \<and> fst (store ex_host ex_resolver (ex_capture ''a'' (Some [(''offsetStart'', ''9'')]))) = Inr None
   \<and> map_boundary (snd (store ex_host ex_resolver (ex_capture ''a'' (Some [(''offsetStart'', ''9'')]))))
       = map_boundary ex_resolver"
proof -
  let ?c = "ex_capture ''a'' (Some [(''offsetStart'', ''9'')])"
  have h1: "adjustsCaptureRange ?c"
    by (simp add: ex_defs eval_defs)
  have e: "node ?c = ex_word" "props_of ?c = [(''offsetStart'', ''9'')]"
    "node_range ex_word = ex_span 3 5"
    by (simp_all add: ex_defs eval_defs)
  have h2: "fst (applyAdjustments ex_host ex_word [(''offsetStart'', ''9'')]
              [(''offsetStart'', ''9'')] (ex_span 3 5) ex_resolver) = Inr (Some (ex_span 5 5))"
    by (simp add: ex_defs eval_defs)
  have h3: "\<not> isValidRange (ex_span 5 5)"
    by (simp add: ex_defs eval_defs)
  from adjusted_capture_with_invalid_range_is_dropped [OF h1, of ex_host ex_resolver "ex_span 5 5"]
  have "fst (store ex_host ex_resolver ?c) = Inr None
        \<and> map_boundary (snd (store ex_host ex_resolver ?c)) = map_boundary ex_resolver"
    using h2 h3 by (simp only: e) blast
  with h1 h2 h3 show ?thesis by blast
qed

text \<open>
  The claim as it stands includes the captures without adjustments. The capture
  of a node of no width is stored: its range is invalid, and \<open>store\<close> returns it
  and records metadata and both boundaries for it.
\<close>

theorem node_of_no_width_is_stored:
  "\<not> isValidRange (ex_span 2 2)
   \<and> fst (store ex_host ex_resolver \<lparr>node = ex_missing, name = ''a'', setProperties = None\<rparr>)
       = Inr (Some (ex_span 2 2))
   \<and> getDataForRange
        (snd (store ex_host ex_resolver \<lparr>node = ex_missing, name = ''a'', setProperties = None\<rparr>))
        (ex_span 2 2) = Some []
   \<and> open_at
        (snd (store ex_host ex_resolver \<lparr>node = ex_missing, name = ''a'', setProperties = None\<rparr>))
        \<lparr>row = 0, column = 2\<rparr> = [''a'']
   \<and> close_at
        (snd (store ex_host ex_resolver \<lparr>node = ex_missing, name = ''a'', setProperties = None\<rparr>))
        \<lparr>row = 0, column = 2\<rparr> = [''a'']"
  by (simp add: ex_defs eval_defs)

subsection \<open>C4: the order of boundaries at one position\<close>

text \<open>
  C4. When three captures are stored with success in the order A, B, C and their
  ranges start at the same position P, the open list at P gains A, B, C in this
  order at its end; when their ranges also end at one position Q, the close list
  at Q gains C, B, A in this order at its front. In a resolver with nothing at P
  and Q the lists are \<open>[A, B, C]\<close> and \<open>[C, B, A]\<close>.
\<close>

theorem same_position_open_in_call_order_close_in_reverse:
  assumes "store h r0 a = (Inr (Some ra), r1)"
    and "store h r1 b = (Inr (Some rb), r2)"
    and "store h r2 c = (Inr (Some rc), r3)"
    and "startPosition ra = P" and "startPosition rb = P" and "startPosition rc = P"
  shows "open_at r3 P =
           open_at r0 P @
             [idForScope r0 (interpolateName (name a) (node a)),
              idForScope r0 (interpolateName (name b) (node b)),
              idForScope r0 (interpolateName (name c) (node c))]
         \<and> (endPosition ra = Q \<and> endPosition rb = Q \<and> endPosition rc = Q \<longrightarrow>
              close_at r3 Q =
                [idForScope r0 (interpolateName (name c) (node c)),
                 idForScope r0 (interpolateName (name b) (node b)),
                 idForScope r0 (interpolateName (name a) (node a))] @ close_at r0 Q)"
proof -
  note A = store_boundaries [OF assms(1)]
  note B = store_boundaries [OF assms(2)]
  note C = store_boundaries [OF assms(3)]
  have ids: "idForScope r1 = idForScope r0" "idForScope r2 = idForScope r0"
    using A(3) B(3) by simp_all
  have "open_at r3 P =
           open_at r0 P @
             [idForScope r0 (interpolateName (name a) (node a)),
              idForScope r0 (interpolateName (name b) (node b)),
              idForScope r0 (interpolateName (name c) (node c))]"
    using assms(4-6) by (simp add: A(1) B(1) C(1) ids)
  moreover have "close_at r3 Q =
                [idForScope r0 (interpolateName (name c) (node c)),
                 idForScope r0 (interpolateName (name b) (node b)),
                 idForScope r0 (interpolateName (name a) (node a))] @ close_at r0 Q"
    if "endPosition ra = Q \<and> endPosition rb = Q \<and> endPosition rc = Q"
    using that by (simp add: A(2) B(2) C(2) ids)
  ultimately show ?thesis by blast
qed

theorem same_position_open_in_call_order_close_in_reverse_witness:
  "fst (store ex_host ex_resolver (ex_capture ''A'' None)) = Inr (Some (ex_span 3 5))
   \<and> open_at
        (store_each ex_host ex_resolver
           [ex_capture ''A'' None, ex_capture ''B'' None, ex_capture ''C'' None])
        \<lparr>row = 0, column = 3\<rparr> = [''A'', ''B'', ''C'']
   \<and> close_at
        (store_each ex_host ex_resolver
           [ex_capture ''A'' None, ex_capture ''B'' None, ex_capture ''C'' None])
        \<lparr>row = 0, column = 5\<rparr> = [''C'', ''B'', ''A'']"
proof -
  let ?a = "ex_capture ''A'' None" and ?b = "ex_capture ''B'' None"
    and ?c = "ex_capture ''C'' None"
  let ?r1 = "snd (store ex_host ex_resolver ?a)"
  let ?r2 = "snd (store ex_host ?r1 ?b)"
  let ?r3 = "snd (store ex_host ?r2 ?c)"
  let ?P = "\<lparr>row = 0, column = 3\<rparr>" and ?Q = "\<lparr>row = 0, column = 5\<rparr>"
  have fa: "fst (store ex_host ex_resolver ?a) = Inr (Some (ex_span 3 5))"
    by (simp add: ex_defs eval_defs)
  have fb: "fst (store ex_host ?r1 ?b) = Inr (Some (ex_span 3 5))"
    by (simp add: ex_defs eval_defs)
  have fc: "fst (store ex_host ?r2 ?c) = Inr (Some (ex_span 3 5))"
    by (simp add: ex_defs eval_defs)
  have a: "store ex_host ex_resolver ?a = (Inr (Some (ex_span 3 5)), ?r1)"
    using fa by (simp only: prod_eq_iff fst_conv snd_conv)
  have b: "store ex_host ?r1 ?b = (Inr (Some (ex_span 3 5)), ?r2)"
    using fb by (simp only: prod_eq_iff fst_conv snd_conv)
  have c: "store ex_host ?r2 ?c = (Inr (Some (ex_span 3 5)), ?r3)"
    using fc by (simp only: prod_eq_iff fst_conv snd_conv)
  have p: "startPosition (ex_span 3 5) = ?P" and q: "endPosition (ex_span 3 5) = ?Q"
    by (simp_all add: ex_span_def)
  have before: "open_at ex_resolver ?P = []" "close_at ex_resolver ?Q = []"
    by (simp_all add: ex_defs eval_defs)
  have names: "idForScope ex_resolver (interpolateName (name ?a) (node ?a)) = ''A''"
    "idForScope ex_resolver (interpolateName (name ?b) (node ?b)) = ''B''"
    "idForScope ex_resolver (interpolateName (name ?c) (node ?c)) = ''C''"
    by (simp_all add: ex_defs eval_defs)
  have r3: "store_each ex_host ex_resolver [?a, ?b, ?c] = ?r3"
    by (simp only: store_each_def foldl.simps)
  from same_position_open_in_call_order_close_in_reverse [OF a b c p p p, of ?Q]
  have "open_at ?r3 ?P = [''A'', ''B'', ''C''] \<and> close_at ?r3 ?Q = [''C'', ''B'', ''A'']"
    using q by (simp only: before names append_Nil append_Nil2)
  with fa show ?thesis by (simp only: r3)
qed

subsection \<open>C5: the name \<open>_IGNORE_\<close>\<close>

text \<open>
  C5. For every capture whose name, after interpolation, is \<open>_IGNORE_\<close>, whose
  range is resolved and whose tests all pass, \<open>store\<close> records the properties of
  the capture as the metadata of the range and adds no boundary at any position
  (it returns \<open>false\<close>).
\<close>

theorem ignored_capture_records_metadata_without_boundaries:
  assumes "fst (determineCaptureRange h r c) = Inr (Some rng)"
    and "test h r (getDataForRange r rng) (props_of c) (node c) = Inr True"
    and "interpolateName (name c) (node c) = ''_IGNORE_''"
  shows "fst (store h r c) = Inr None
         \<and> rangeData (snd (store h r c)) = (rangeData r)(keyForRange rng \<mapsto> props_of c)
         \<and> map_boundary (snd (store h r c)) = map_boundary r"
proof -
  have s: "same_store r (snd (determineCaptureRange h r c))"
    by (rule determineCaptureRange_same)
  show ?thesis
    using s by (simp add: store_ignored [OF assms] setDataForRange_def same_store_def)
qed

theorem ignored_capture_records_metadata_without_boundaries_witness:
  "interpolateName ''_IGNORE_'' ex_word = ''_IGNORE_''
   \<and> fst (store ex_host ex_resolver (ex_capture ''_IGNORE_'' (Some [(''shy'', ''true'')])))
       = Inr None
   \<and> rangeData (snd (store ex_host ex_resolver (ex_capture ''_IGNORE_'' (Some [(''shy'', ''true'')]))))
       = (rangeData ex_resolver)(''3/5'' \<mapsto> [(''shy'', ''true'')])
   \<and> map_boundary (snd (store ex_host ex_resolver (ex_capture ''_IGNORE_'' (Some [(''shy'', ''true'')]))))
       = map_boundary ex_resolver"
proof -
  let ?c = "ex_capture ''_IGNORE_'' (Some [(''shy'', ''true'')])"
  have h1: "fst (determineCaptureRange ex_host ex_resolver ?c) = Inr (Some (ex_span 3 5))"
    by (simp add: ex_defs eval_defs)
  have h2: "test ex_host ex_resolver (getDataForRange ex_resolver (ex_span 3 5))
              (props_of ?c) (node ?c) = Inr True"
    by (simp add: ex_defs eval_defs)
  have h3: "interpolateName (name ?c) (node ?c) = ''_IGNORE_''"
    by (simp add: ex_defs eval_defs)
  have e: "keyForRange (ex_span 3 5) = ''3/5''" "props_of ?c = [(''shy'', ''true'')]"
    "name ?c = ''_IGNORE_''" "node ?c = ex_word"
    by (simp_all add: ex_defs eval_defs)
  from ignored_capture_records_metadata_without_boundaries [OF h1 h2 h3] h3
  show ?thesis by (simp only: e)
qed

subsection \<open>C6: interpolation of the name\<close>

text \<open>
  The two examples of the specification, and the replacement texts on which
  \<open>replace\<close> inserts its argument as it is: those without a dollar sign.
\<close>

lemma interpolateName_examples:
  "interpolateName ''foo._TEXT_'' (Node (SyntaxTree i ''word'' ''bar'' rng e []) None) = ''foo.bar''"
  "interpolateName ''foo._TEXT_'' (Node (SyntaxTree i ''word'' ''a b'' rng e []) None) = ''foo._TEXT_''"
  by (simp_all add: eval_defs)

lemma getSubstitution_without_dollar:
  "CHR ''$'' \<notin> set template \<Longrightarrow> getSubstitution matched preceding following template = template"
  by (induction matched preceding following template rule: getSubstitution.induct) auto

lemma replace_without_dollar:
  assumes "indexOf s pat = Some i" and "CHR ''$'' \<notin> set repl"
  shows "replace s pat repl = take i s @ repl @ drop (i + length pat) s"
  using assms by (simp add: replace_def Let_def getSubstitution_without_dollar)

text \<open>
  C6. Interpolation is to put the text of the node, as it is, in the place of
  \<open>_TEXT_\<close> whenever the text has no space. The source hands the text to \<open>replace\<close>
  as the replacement, where \<open>$$\<close>, \<open>$&\<close>, \<open>$`\<close> and \<open>$'\<close> are patterns: for the text
  \<open>$$\<close>, which has no space, the name \<open>foo._TEXT_\<close> becomes \<open>foo.$\<close> and not \<open>foo.$$\<close>.
\<close>

theorem interpolation_reads_node_text_as_template:
  "node_text ex_dollars = ''$$''
   \<and> \<not> includes_str (node_text ex_dollars) '' ''
   \<and> interpolateName ''foo._TEXT_'' ex_dollars = ''foo.$''"
  by (simp add: ex_defs eval_defs)

subsection \<open>C7: a position outside the extent of the node\<close>

text \<open>
  C7, as amended. For every capture with a \<open>startAt\<close>, \<open>endAt\<close>, \<open>offsetStart\<close> or
  \<open>offsetEnd\<close> adjustment that the loop over the members reaches (every
  adjustment before it in the order of the keys yields a range): if the position
  that the adjustment resolves lies outside the closed interval between
  \<open>startPosition\<close> and \<open>endPosition\<close> of the node, \<open>store\<close> throws the error
  \<open>Cannot extend past original range of capture\<close>.
\<close>

theorem reached_adjustment_outside_extent_raises:
  assumes "props_of c = pre @ (key, val) # post"
    and "fst (applyAdjustments h (node c) (props_of c) pre (node_range (node c)) r)
           = Inr (Some rng)"
    and "adjustmentPosition h r key val (node c) rng = Some p"
    and "\<not> isBetweenPoints p (startPosition (node_range (node c)))
             (endPosition (node_range (node c)))"
  shows "fst (store h r c) = Inl CannotExtend"
proof -
  obtain r1 where pre: "applyAdjustments h (node c) (props_of c) pre (node_range (node c)) r
      = (Inr (Some rng), r1)"
    using assms(2)
    by (cases "applyAdjustments h (node c) (props_of c) pre (node_range (node c)) r") simp
  have s: "same_store r r1"
    using applyAdjustments_same [of r h "node c" "props_of c" pre "node_range (node c)"] pre
    by simp
  have "adjustmentPosition h r1 key val (node c) rng = Some p"
    using assms(3) by (simp add: adjustmentPosition_same [OF s])
  from position_adjustment_raises [OF this assms(4)]
  obtain adjust where adj: "(ADJUSTMENTS key :: 'a adjustment option) = Some adjust"
    and mem: "in_ADJUSTMENTS key"
    and raises: "adjust h (node c) val (props_of c) rng r1 = (Inl CannotExtend, r1)"
    by blast
  have "applyAdjustments h (node c) (props_of c) ((key, val) # post) rng r1
          = (Inl CannotExtend, r1)"
    using adj mem raises by simp
  with pre
  have "applyAdjustments h (node c) (props_of c) (pre @ (key, val) # post)
          (node_range (node c)) r = (Inl CannotExtend, r1)"
    by (simp add: applyAdjustments_append)
  with assms(1)
  have "applyAdjustments h (node c) (props_of c) (props_of c) (node_range (node c)) r
          = (Inl CannotExtend, r1)"
    by simp
  then have "fst (determineCaptureRange h r c) = Inl CannotExtend"
    by (simp add: determineCaptureRange_adjusted [OF adjustsCaptureRange_member [OF assms(1) mem]])
  from store_range_raises [OF this] show ?thesis by simp
qed

theorem reached_adjustment_outside_extent_raises_witness:
  "fst (applyAdjustments ex_host ex_word
          [(''offsetEnd'', ''-1''), (''startAt'', ''parent.startPosition'')]
          [(''offsetEnd'', ''-1'')] (ex_span 3 5) ex_resolver) = Inr (Some (ex_span 3 4))
   \<and> adjustmentPosition ex_host ex_resolver ''startAt'' ''parent.startPosition'' ex_word
        (ex_span 3 4) = Some \<lparr>row = 0, column = 0\<rparr>
   \<and> \<not> isBetweenPoints \<lparr>row = 0, column = 0\<rparr> \<lparr>row = 0, column = 3\<rparr> \<lparr>row = 0, column = 5\<rparr>
   \<and> fst (store ex_host ex_resolver
          (ex_capture ''a''
             (Some [(''offsetEnd'', ''-1''), (''startAt'', ''parent.startPosition'')])))
       = Inl CannotExtend"
proof -
  let ?ps = "[(''offsetEnd'', ''-1''), (''startAt'', ''parent.startPosition'')]"
  let ?c = "ex_capture ''a'' (Some ?ps)"
  have e: "node ?c = ex_word" "props_of ?c = ?ps" "node_range ex_word = ex_span 3 5"
    "startPosition (ex_span 3 5) = \<lparr>row = 0, column = 3\<rparr>"
    "endPosition (ex_span 3 5) = \<lparr>row = 0, column = 5\<rparr>"
    by (simp_all add: ex_defs eval_defs)
  have h1: "props_of ?c = [(''offsetEnd'', ''-1'')] @ (''startAt'', ''parent.startPosition'') # []"
    by (simp add: ex_defs eval_defs)
  have h2: "fst (applyAdjustments ex_host (node ?c) (props_of ?c) [(''offsetEnd'', ''-1'')]
              (node_range (node ?c)) ex_resolver) = Inr (Some (ex_span 3 4))"
    by (simp add: ex_defs eval_defs)
  have h3: "adjustmentPosition ex_host ex_resolver ''startAt'' ''parent.startPosition'' (node ?c)
              (ex_span 3 4) = Some \<lparr>row = 0, column = 0\<rparr>"
    by (simp add: ex_defs eval_defs)
  have h4: "\<not> isBetweenPoints \<lparr>row = 0, column = 0\<rparr> (startPosition (node_range (node ?c)))
              (endPosition (node_range (node ?c)))"
    by (simp add: ex_defs eval_defs)
  from reached_adjustment_outside_extent_raises [OF h1 h2 h3 h4]
  have "fst (store ex_host ex_resolver ?c) = Inl CannotExtend" .
  with h2 h3 h4 show ?thesis by (simp only: e) blast
qed

text \<open>
  The claim as it stands is about every capture that carries such an adjustment.
  When an adjustment before it yields \<open>null\<close>, the capture is dropped before the
  adjustment runs: here \<open>startAt\<close> names the start of the parent, outside of the
  node, and \<open>store\<close> returns \<open>false\<close> without an error.
\<close>

theorem unreached_adjustment_does_not_raise:
  "resolveNodePosition ex_host ex_word ''parent.startPosition''
     = Inr (JPoint \<lparr>row = 0, column = 0\<rparr>)
   \<and> \<not> isBetweenPoints \<lparr>row = 0, column = 0\<rparr> (startPosition (node_range ex_word))
         (endPosition (node_range ex_word))
   \<and> fst (store ex_host ex_resolver
          (ex_capture ''a''
             (Some [(''offsetStart'', ''x''), (''startAt'', ''parent.startPosition'')])))
       = Inr None"
  by (simp add: ex_defs eval_defs)

subsection \<open>C8: an offset that is not a number\<close>

text \<open>
  C8, as amended. An \<open>offsetStart\<close> or \<open>offsetEnd\<close> adjustment whose value is not a
  number yields \<open>null\<close> whenever it is applied; and for every capture that carries
  one, if no adjustment before it in the order of the keys throws, \<open>store\<close>
  returns \<open>false\<close>, throws no error and changes neither the metadata nor the
  boundaries.
\<close>

theorem non_numeric_offset_drops_capture:
  assumes "props_of c = pre @ (key, val) # post"
    and "key = ''offsetStart'' \<or> key = ''offsetEnd''"
    and "toNumber h val = None"
    and "fst (applyAdjustments h (node c) (props_of c) pre (node_range (node c)) r) = Inr x"
  shows "offsetStart h n val ps rng r = (Inr None, r)
         \<and> offsetEnd h n val ps rng r = (Inr None, r)
         \<and> fst (store h r c) = Inr None
         \<and> map_boundary (snd (store h r c)) = map_boundary r
         \<and> rangeData (snd (store h r c)) = rangeData r"
proof -
  have off: "offsetStart h n' val ps' rng' r' = (Inr None, r')"
    "offsetEnd h n' val ps' rng' r' = (Inr None, r')"
    for n' ps' rng' and r' :: "'a resolver"
    using assms(3) by (simp_all add: offsetStart_def offsetEnd_def)
  have mem: "in_ADJUSTMENTS key"
    using assms(2) by (auto simp: in_ADJUSTMENTS_def adjustment_names_def)
  have here: "fst (applyAdjustments h (node c) (props_of c) ((key, val) # post) rng1 r1)
                = Inr None" for rng1 and r1 :: "'a resolver"
    using assms(2) mem off by (auto simp: ADJUSTMENTS_def)
  have "fst (applyAdjustments h (node c) (props_of c) (pre @ (key, val) # post)
               (node_range (node c)) r) = Inr None"
    using assms(4) here
    by (cases "applyAdjustments h (node c) (props_of c) pre (node_range (node c)) r"; cases x)
       (simp_all add: applyAdjustments_append)
  with assms(1)
  have "fst (applyAdjustments h (node c) (props_of c) (props_of c) (node_range (node c)) r)
          = Inr None"
    by simp
  then have d: "fst (determineCaptureRange h r c) = Inr None"
    by (cases "applyAdjustments h (node c) (props_of c) (props_of c) (node_range (node c)) r")
       (simp add: determineCaptureRange_adjusted [OF adjustsCaptureRange_member [OF assms(1) mem]])
  have s: "same_store r (snd (determineCaptureRange h r c))"
    by (rule determineCaptureRange_same)
  from store_range_dropped [OF d] s off show ?thesis
    by (simp add: same_store_def)
qed

theorem non_numeric_offset_drops_capture_witness:
  "toNumber ex_host ''x'' = None
   \<and> fst (applyAdjustments ex_host ex_word
          [(''offsetEnd'', ''-1''), (''offsetStart'', ''x'')]
          [(''offsetEnd'', ''-1'')] (ex_span 3 5) ex_resolver) = Inr (Some (ex_span 3 4))
   \<and> offsetStart ex_host ex_word ''x'' [] (ex_span 3 5) ex_resolver = (Inr None, ex_resolver)
   \<and> fst (store ex_host ex_resolver
          (ex_capture ''a'' (Some [(''offsetEnd'', ''-1''), (''offsetStart'', ''x'')])))
       = Inr None"
proof -
  let ?ps = "[(''offsetEnd'', ''-1''), (''offsetStart'', ''x'')]"
  let ?c = "ex_capture ''a'' (Some ?ps)"
  have e: "node ?c = ex_word" "props_of ?c = ?ps" "node_range ex_word = ex_span 3 5"
    by (simp_all add: ex_defs eval_defs)
  have h1: "props_of ?c = [(''offsetEnd'', ''-1'')] @ (''offsetStart'', ''x'') # []"
    by (simp add: ex_defs eval_defs)
  have h2: "''offsetStart'' = ''offsetStart'' \<or> ''offsetStart'' = ''offsetEnd''"
    by simp
  have h3: "toNumber ex_host ''x'' = None"
    by (simp add: ex_defs)
  have h4: "fst (applyAdjustments ex_host (node ?c) (props_of ?c) [(''offsetEnd'', ''-1'')]
              (node_range (node ?c)) ex_resolver) = Inr (Some (ex_span 3 4))"
    by (simp add: ex_defs eval_defs)
  from non_numeric_offset_drops_capture
         [OF h1 h2 h3 h4, of ex_word "[]" "ex_span 3 5"]
  have "offsetStart ex_host ex_word ''x'' [] (ex_span 3 5) ex_resolver = (Inr None, ex_resolver)
        \<and> fst (store ex_host ex_resolver ?c) = Inr None"
    by blast
  with h3 h4 show ?thesis by (simp only: e)
qed

text \<open>
  The claim as it stands is about every capture that carries such an offset.
  When an adjustment before it throws, \<open>store\<close> throws: here \<open>startAt\<close> comes first
  and names a position outside of the node.
\<close>

theorem non_numeric_offset_after_raising_adjustment:
  "toNumber ex_host ''x'' = None
   \<and> fst (store ex_host ex_resolver
          (ex_capture ''a''
             (Some [(''startAt'', ''parent.startPosition''), (''offsetStart'', ''x'')])))
       = Inl CannotExtend"
  by (simp add: ex_defs eval_defs)

subsection \<open>C9: \<open>reset\<close>\<close>

text \<open>
  A pattern that has been compiled is in the cache, and storing captures never
  takes a pattern out of the cache.
\<close>

lemma patternCache_setBoundary: "patternCache (setBoundary r p s w root) = patternCache r"
  by (simp add: setBoundary_def Let_def)

lemma store_keeps_cached_patterns:
  "patternCache r \<subseteq>\<^sub>m patternCache (snd (store h r c))"
proof (cases "\<exists>rng. fst (determineCaptureRange h r c) = Inr (Some rng) \<and>
              test h r (getDataForRange r rng) (props_of c) (node c) = Inr True")
  case False
  from store_unchanged_unless_passed [OF this] show ?thesis
    by (simp add: same_store_def)
next
  case True
  then obtain rng where d: "fst (determineCaptureRange h r c) = Inr (Some rng)"
    and t: "test h r (getDataForRange r rng) (props_of c) (node c) = Inr True" by blast
  have s: "same_store r (snd (determineCaptureRange h r c))"
    by (rule determineCaptureRange_same)
  show ?thesis
  proof (cases "interpolateName (name c) (node c) = ''_IGNORE_''")
    case True
    from s show ?thesis
      by (simp add: store_ignored [OF d t True] setDataForRange_def same_store_def)
  next
    case False
    from s show ?thesis
      by (simp add: store_accepted [OF d t False] setDataForRange_def same_store_def
          patternCache_setBoundary)
  qed
qed

lemma store_each_keeps_cached_patterns:
  "patternCache r pattern = Some regex \<Longrightarrow>
   patternCache (store_each h r cs) pattern = Some regex"
proof (induction cs arbitrary: r)
  case Nil
  then show ?case by (simp add: store_each_def)
next
  case (Cons c cs)
  from store_keeps_cached_patterns [of r h c] Cons.prems
  have "patternCache (snd (store h r c)) pattern = Some regex"
    by (auto simp: map_le_def dom_def)
  then have "patternCache (store_each h (snd (store h r c)) cs) pattern = Some regex"
    by (rule Cons.IH)
  then show ?case by (simp add: store_each_def)
qed

lemma compiled_pattern_is_cached:
  "fst (getOrCompilePattern h r pattern) = Inr regex \<Longrightarrow>
   patternCache (snd (getOrCompilePattern h r pattern)) pattern = Some regex"
  by (auto simp: getOrCompilePattern_def split: option.splits sum.splits)

text \<open>
  C9. After \<open>reset\<close> the boundary map and the metadata are empty: no range has
  metadata and no position has a bundle. A pattern that is in the cache (as every
  pattern is once it has been compiled) is still there, and \<open>getOrCompilePattern\<close>
  returns the cached object and leaves the resolver as it is, whatever the
  constructor of regular expressions would do. \<open>reset\<close> changes no other field,
  and a second \<open>reset\<close> changes nothing.
\<close>

theorem reset_clears_boundaries_and_metadata_only:
  assumes "patternCache r pattern = Some regex"
  shows "map_boundary (reset r) = Map.empty
         \<and> rangeData (reset r) = Map.empty
         \<and> getDataForRange (reset r) rng = None
         \<and> open_at (reset r) p = [] \<and> close_at (reset r) p = []
         \<and> getOrCompilePattern h (reset r) pattern = (Inr regex, reset r)
         \<and> patternCache (reset r) = patternCache r
         \<and> languageLayer (reset r) = languageLayer r
         \<and> buffer (reset r) = buffer r
         \<and> idForScope (reset r) = idForScope r
         \<and> reset (reset r) = reset r"
  using assms
  by (simp add: reset_def getDataForRange_def open_at_def close_at_def getOrCompilePattern_def)

theorem reset_clears_boundaries_and_metadata_only_witness:
  "fst (getOrCompilePattern ex_host
          (snd (store ex_host ex_resolver (ex_capture ''a'' None))) ''z'') = Inr (RegExp 0)
   \<and> getDataForRange (snd (store ex_host ex_resolver (ex_capture ''a'' None))) (ex_span 3 5)
       = Some []
   \<and> getDataForRange
        (reset (snd (getOrCompilePattern ex_host
                       (snd (store ex_host ex_resolver (ex_capture ''a'' None))) ''z'')))
        (ex_span 3 5) = None
   \<and> fst (getOrCompilePattern (ex_host\<lparr>newRegExp := (\<lambda>p. Inl SyntaxError)\<rparr>)
          (reset (snd (getOrCompilePattern ex_host
                         (snd (store ex_host ex_resolver (ex_capture ''a'' None))) ''z'')))
          ''z'') = Inr (RegExp 0)"
proof -
  let ?s = "snd (store ex_host ex_resolver (ex_capture ''a'' None))"
  let ?r = "snd (getOrCompilePattern ex_host ?s ''z'')"
  have c: "fst (getOrCompilePattern ex_host ?s ''z'') = Inr (RegExp 0)"
    by (simp add: ex_defs eval_defs)
  have d: "getDataForRange ?s (ex_span 3 5) = Some []"
    by (simp add: ex_defs eval_defs)
  have h: "patternCache ?r ''z'' = Some (RegExp 0)"
    using c by (rule compiled_pattern_is_cached)
  from reset_clears_boundaries_and_metadata_only
         [OF h, of "ex_span 3 5" _ "ex_host\<lparr>newRegExp := (\<lambda>p. Inl SyntaxError)\<rparr>"]
  have "getDataForRange (reset ?r) (ex_span 3 5) = None
        \<and> fst (getOrCompilePattern (ex_host\<lparr>newRegExp := (\<lambda>p. Inl SyntaxError)\<rparr>)
                 (reset ?r) ''z'') = Inr (RegExp 0)"
    by simp
  with c d show ?thesis by blast
qed

subsection \<open>C10: what a rejected capture leaves behind\<close>

text \<open>
  C10, as amended. For every capture that is rejected before its metadata is
  recorded, because its range resolves to \<open>null\<close> or because a test (or the
  \<open>final\<close> mark of the range) fails, \<open>store\<close> returns \<open>false\<close> and leaves the
  boundary map and the metadata as they were; and whenever a call of \<open>store\<close>
  changes the boundary map or the metadata, the capture was accepted: its range
  was resolved and its tests passed. (The pattern cache is not covered: a
  rejected capture can add a compiled pattern to it.)
\<close>

theorem rejection_leaves_boundaries_and_metadata:
  "(fst (determineCaptureRange h r c) = Inr None \<or>
    (\<exists>rng. fst (determineCaptureRange h r c) = Inr (Some rng) \<and>
       test h r (getDataForRange r rng) (props_of c) (node c) = Inr False)
    \<longrightarrow> fst (store h r c) = Inr None
        \<and> map_boundary (snd (store h r c)) = map_boundary r
        \<and> rangeData (snd (store h r c)) = rangeData r)
   \<and> (map_boundary (snd (store h r c)) \<noteq> map_boundary r \<or>
      rangeData (snd (store h r c)) \<noteq> rangeData r
      \<longrightarrow> (\<exists>rng. fst (determineCaptureRange h r c) = Inr (Some rng) \<and>
             test h r (getDataForRange r rng) (props_of c) (node c) = Inr True))"
proof (intro conjI impI)
  assume rej: "fst (determineCaptureRange h r c) = Inr None \<or>
    (\<exists>rng. fst (determineCaptureRange h r c) = Inr (Some rng) \<and>
       test h r (getDataForRange r rng) (props_of c) (node c) = Inr False)"
  have s: "same_store r (snd (determineCaptureRange h r c))"
    by (rule determineCaptureRange_same)
  from rej have st: "store h r c = (Inr None, snd (determineCaptureRange h r c))"
    by (auto intro: store_range_dropped store_test_fails)
  from st show "fst (store h r c) = Inr None" by simp
  from st s show "map_boundary (snd (store h r c)) = map_boundary r"
    by (simp add: same_store_def)
  from st s show "rangeData (snd (store h r c)) = rangeData r"
    by (simp add: same_store_def)
next
  assume ch: "map_boundary (snd (store h r c)) \<noteq> map_boundary r \<or>
      rangeData (snd (store h r c)) \<noteq> rangeData r"
  show "\<exists>rng. fst (determineCaptureRange h r c) = Inr (Some rng) \<and>
             test h r (getDataForRange r rng) (props_of c) (node c) = Inr True"
  proof (rule ccontr)
    assume "\<not> ?thesis"
    from store_unchanged_unless_passed [OF this] ch show False
      by (simp add: same_store_def)
  qed
qed

theorem rejection_leaves_boundaries_and_metadata_witness:
  "fst (determineCaptureRange ex_host ex_resolver
          (ex_capture ''a'' (Some [(''onlyIfFirst'', ''true'')]))) = Inr (Some (ex_span 3 5))
   \<and> test ex_host ex_resolver (getDataForRange ex_resolver (ex_span 3 5))
        [(''onlyIfFirst'', ''true'')] ex_word = Inr False
   \<and> fst (store ex_host ex_resolver (ex_capture ''a'' (Some [(''onlyIfFirst'', ''true'')])))
       = Inr None
   \<and> map_boundary (snd (store ex_host ex_resolver
        (ex_capture ''a'' (Some [(''onlyIfFirst'', ''true'')])))) = map_boundary ex_resolver
   \<and> rangeData (snd (store ex_host ex_resolver
        (ex_capture ''a'' (Some [(''onlyIfFirst'', ''true'')])))) = rangeData ex_resolver"
proof -
  let ?c = "ex_capture ''a'' (Some [(''onlyIfFirst'', ''true'')])"
  have e: "node ?c = ex_word" "props_of ?c = [(''onlyIfFirst'', ''true'')]"
    by (simp_all add: ex_defs eval_defs)
  have h1: "fst (determineCaptureRange ex_host ex_resolver ?c) = Inr (Some (ex_span 3 5))"
    by (simp add: ex_defs eval_defs)
  have h2: "test ex_host ex_resolver (getDataForRange ex_resolver (ex_span 3 5))
              (props_of ?c) (node ?c) = Inr False"
    by (simp add: ex_defs eval_defs)
  from rejection_leaves_boundaries_and_metadata [of ex_host ex_resolver ?c] h1 h2
  have "fst (store ex_host ex_resolver ?c) = Inr None
        \<and> map_boundary (snd (store ex_host ex_resolver ?c)) = map_boundary ex_resolver
        \<and> rangeData (snd (store ex_host ex_resolver ?c)) = rangeData ex_resolver"
    by blast
  with h1 h2 show ?thesis by (simp only: e)
qed

text \<open>
  The claim as it stands lets only an accepted capture change the state of the
  resolver. A capture whose pattern finds no match is rejected, and the pattern
  it compiled stays in the cache.
\<close>

theorem rejected_capture_fills_pattern_cache:
  "fst (store ex_host ex_resolver
          (ex_capture ''a'' (Some [(''startAfterFirstMatchOf'', ''z'')]))) = Inr None
   \<and> patternCache ex_resolver ''z'' = None
   \<and> patternCache
        (snd (store ex_host ex_resolver
                (ex_capture ''a'' (Some [(''startAfterFirstMatchOf'', ''z'')])))) ''z''
       = Some (RegExp 0)"
  by (simp add: ex_defs eval_defs)

end
